theory Spec2Isabelle
  imports Main "HOL-Library.Log_Nat" "HOL-Library.Sublist"
begin

section \<open>Python values used by the two monitors\<close>

subsection \<open>Exceptions\<close>

datatype py_error =
    KeyError | ValueError | TypeError | AttributeError | OverflowError
  | JSONDecodeError | ConnectionClosed | OSError

subsection \<open>Floats\<close>

text \<open>
  A Python float is an IEEE-754 binary64 number. A finite one is modelled by its exact
  value, a rational; every arithmetic operation computes the exact result and rounds it to
  the nearest binary64 value, ties to even (\<open>b64\<close>). Subnormal numbers are covered by the
  lower bound on the exponent. Infinities, NaN, the sign of zero and overflow past the
  largest finite double are not part of this model.
\<close>

type_synonym pyfloat = rat

definition pow2 :: "int \<Rightarrow> rat" where
  "pow2 e = 2 powi e"

definition round_half_even :: "rat \<Rightarrow> int" where
  "round_half_even q =
     (let f = \<lfloor>q\<rfloor>; d = q - of_int f
      in if d < 1 / 2 then f else if 1 / 2 < d then f + 1 else if even f then f else f + 1)"

text \<open>\<open>binade x\<close> is the exponent \<open>e\<close> with \<open>2^e \<le> |x| < 2^(e+1)\<close>, for \<open>x \<noteq> 0\<close>.\<close>

definition binade :: "rat \<Rightarrow> int" where
  "binade x =
     (let (a, b) = quotient_of \<bar>x\<bar>; k = bitlen a - bitlen b
      in if pow2 k \<le> \<bar>x\<bar> then k else k - 1)"

definition b64 :: "rat \<Rightarrow> pyfloat" where
  "b64 x =
     (if x = 0 then 0
      else let u = pow2 (max (binade x - 52) (- 1074))
           in of_int (round_half_even (x / u)) * u)"

definition fmul :: "pyfloat \<Rightarrow> pyfloat \<Rightarrow> pyfloat" where
  "fmul x y = b64 (x * y)"

definition fadd :: "pyfloat \<Rightarrow> pyfloat \<Rightarrow> pyfloat" where
  "fadd x y = b64 (x + y)"

text \<open>\<open>a / b\<close> on two Python ints: the quotient, correctly rounded.\<close>

definition int_truediv :: "int \<Rightarrow> int \<Rightarrow> pyfloat" where
  "int_truediv a b = b64 (of_int a / of_int b)"

text \<open>The format specification \<open>.2f\<close>: the exact value rounded to hundredths.\<close>

definition digit_char :: "int \<Rightarrow> char" where
  "digit_char d = ''0123456789'' ! nat d"

function digits_of :: "int \<Rightarrow> string" where
  "digits_of n = (if n < 10 then [digit_char n] else digits_of (n div 10) @ [digit_char (n mod 10)])"
  by pat_completeness auto
termination
  by (relation "measure nat") auto

declare digits_of.simps [simp del]

definition format_2f :: "pyfloat \<Rightarrow> string" where
  "format_2f x =
     (let n = round_half_even (\<bar>x\<bar> * 100)
      in (if x < 0 then ''-'' else '''') @ digits_of (n div 100) @ ''.''
           @ [digit_char (n mod 100 div 10), digit_char (n mod 10)])"

subsection \<open>Strings\<close>

text \<open>\<open>s.replace(old, new)\<close>: every occurrence, scanning from the left.\<close>

function replace_str :: "string \<Rightarrow> string \<Rightarrow> string \<Rightarrow> string" where
  "replace_str old new s =
     (if old = [] then concat (map (\<lambda>c. new @ [c]) s) @ new
      else if s = [] then []
      else if prefix old s then new @ replace_str old new (drop (length old) s)
      else hd s # replace_str old new (tl s))"
  by pat_completeness auto
termination
  by (relation "measure (\<lambda>(old, new, s). length s)") auto

declare replace_str.simps [simp del]

definition upper_char :: "char \<Rightarrow> char" where
  "upper_char c =
     (let n = (of_char c :: nat) in if 97 \<le> n \<and> n \<le> 122 then char_of (n - 32) else c)"

definition upper :: "string \<Rightarrow> string" where
  "upper s = map upper_char s"

subsection \<open>Dictionaries\<close>

text \<open>
  A dict keeps its keys in insertion order: an association list with distinct keys.
  \<open>d[k] = v\<close> overwrites in place when the key is there and appends otherwise.
\<close>

fun setitem :: "'k \<Rightarrow> 'v \<Rightarrow> ('k \<times> 'v) list \<Rightarrow> ('k \<times> 'v) list" where
  "setitem k v [] = [(k, v)]"
| "setitem k v ((k', v') # d) = (if k' = k then (k, v) # d else (k', v') # setitem k v d)"

definition getitem :: "('k \<times> 'v) list \<Rightarrow> 'k \<Rightarrow> py_error + 'v" where
  "getitem d k = (case map_of d k of None \<Rightarrow> Inl KeyError | Some v \<Rightarrow> Inr v)"

subsection \<open>Decoded JSON\<close>

text \<open>
  What \<open>json.loads\<close> returns. An object is a dict; its keys are distinct.
\<close>

datatype json =
    JNull | JBool bool | JInt int | JFloat pyfloat | JStr string
  | JArr "json list" | JObj "(string \<times> json) list"

text \<open>\<open>data[key]\<close> with a string key: only a dict can be indexed by a string.\<close>

definition py_getitem :: "json \<Rightarrow> string \<Rightarrow> py_error + json" where
  "py_getitem data key = (case data of JObj d \<Rightarrow> getitem d key | _ \<Rightarrow> Inl TypeError)"

text \<open>\<open>data.get(key, default)\<close>: only a dict has the method.\<close>

definition py_get :: "json \<Rightarrow> string \<Rightarrow> json \<Rightarrow> py_error + json" where
  "py_get data key dflt =
     (case data of
        JObj d \<Rightarrow> (case map_of d key of None \<Rightarrow> Inr dflt | Some v \<Rightarrow> Inr v)
      | _ \<Rightarrow> Inl AttributeError)"

fun is_substring :: "string \<Rightarrow> string \<Rightarrow> bool" where
  "is_substring k [] = (k = [])"
| "is_substring k (c # cs) = (prefix k (c # cs) \<or> is_substring k cs)"

text \<open>\<open>key in data\<close> for a string key.\<close>

definition py_contains :: "string \<Rightarrow> json \<Rightarrow> py_error + bool" where
  "py_contains key data =
     (case data of
        JObj d \<Rightarrow> Inr (key \<in> set (map fst d))
      | JArr xs \<Rightarrow> Inr (JStr key \<in> set xs)
      | JStr s \<Rightarrow> Inr (is_substring key s)
      | _ \<Rightarrow> Inl TypeError)"

text \<open>
  \<open>float(x)\<close> and \<open>int(x)\<close>. Of the strings that \<open>float\<close> accepts, the model reads the
  plain decimal notation (sign, digits, point, digits), which is what the exchange sends;
  the result is the nearest double. Exponents, surrounding blanks, underscores and the
  words \<open>inf\<close> and \<open>nan\<close> are not read: the model takes them for a \<open>ValueError\<close>.
\<close>

definition digit_val :: "char \<Rightarrow> int option" where
  "digit_val c = map_of (zip ''0123456789'' [0, 1, 2, 3, 4, 5, 6, 7, 8, 9]) c"

fun digits_val :: "string \<Rightarrow> int \<Rightarrow> int option" where
  "digits_val [] acc = Some acc"
| "digits_val (c # cs) acc =
     (case digit_val c of None \<Rightarrow> None | Some d \<Rightarrow> digits_val cs (10 * acc + d))"

definition split_sign :: "string \<Rightarrow> bool \<times> string" where
  "split_sign s =
     (case s of
        [] \<Rightarrow> (False, s)
      | c # cs \<Rightarrow> if c = CHR ''-'' then (True, cs) else if c = CHR ''+'' then (False, cs) else (False, s))"

definition parse_decimal :: "string \<Rightarrow> rat option" where
  "parse_decimal s =
     (let (neg, body) = split_sign s;
          ip = takeWhile (\<lambda>c. c \<noteq> CHR ''.'') body;
          fp = drop 1 (dropWhile (\<lambda>c. c \<noteq> CHR ''.'') body)
      in if ip = [] \<and> fp = [] then None
         else case (digits_val ip 0, digits_val fp 0) of
                (Some i, Some f) \<Rightarrow>
                  Some ((if neg then - 1 else 1) * (of_int i + of_int f / 10 ^ length fp))
              | _ \<Rightarrow> None)"

definition parse_integer :: "string \<Rightarrow> int option" where
  "parse_integer s =
     (let (neg, body) = split_sign s
      in if body = [] then None
         else case digits_val body 0 of
                Some n \<Rightarrow> Some ((if neg then - 1 else 1) * n)
              | None \<Rightarrow> None)"

definition py_float :: "json \<Rightarrow> py_error + pyfloat" where
  "py_float x =
     (case x of
        JFloat v \<Rightarrow> Inr v
      | JInt n \<Rightarrow> Inr (b64 (of_int n))
      | JBool b \<Rightarrow> Inr (if b then 1 else 0)
      | JStr s \<Rightarrow> (case parse_decimal s of None \<Rightarrow> Inl ValueError | Some q \<Rightarrow> Inr (b64 q))
      | _ \<Rightarrow> Inl TypeError)"

definition py_int :: "json \<Rightarrow> py_error + int" where
  "py_int x =
     (case x of
        JInt n \<Rightarrow> Inr n
      | JBool b \<Rightarrow> Inr (if b then 1 else 0)
      | JFloat v \<Rightarrow> Inr (if 0 \<le> v then \<lfloor>v\<rfloor> else - \<lfloor>- v\<rfloor>)
      | JStr s \<Rightarrow> (case parse_integer s of None \<Rightarrow> Inl ValueError | Some n \<Rightarrow> Inr n)
      | _ \<Rightarrow> Inl TypeError)"

subsection \<open>What a websocket delivers\<close>

text \<open>
  One \<open>await websocket.recv()\<close> followed by \<open>json.loads\<close>: the connection is closed
  (\<open>recv\<close> raises \<open>ConnectionClosed\<close>), or a text frame arrives that \<open>json.loads\<close> rejects
  (it raises \<open>JSONDecodeError\<close>) or decodes.
\<close>

datatype frame = Closed | Undecodable string | Decoded json

text \<open>
  One \<open>connect(url)\<close>: it fails, or it opens a connection that delivers frames. When the
  list of frames is used up, \<open>recv\<close> waits. A failed attempt carries the reading of the
  event loop's clock, \<open>time() % 1\<close>, that the handler then takes.
\<close>

datatype connection = Refused pyfloat | Opened "frame list"

datatype action = Connect string | LogError py_error | Sleep pyfloat

section \<open>funding.py\<close>

subsection \<open>Configuration and the shared aggregate\<close>

definition symbols :: "string list" where
  "symbols = [''btcusdt'', ''ethusdt'', ''solusdt'', ''xrpusdt'', ''bnbusdt'', ''dogeusdt'']"

definition display_names :: "string list" where
  "display_names = map (\<lambda>symbol. upper (replace_str ''usdt'' '''' symbol)) symbols"

type_synonym rates = "(string \<times> pyfloat option) list"

definition current_rates :: rates where
  "current_rates = map (\<lambda>name. (name, None)) display_names"

text \<open>
  The two critical sections under \<open>data_lock\<close>. Neither contains an \<open>await\<close>, so each is
  one atomic step of the event loop: the assignment of a stream, and the copy of the
  scheduler.
\<close>

definition update :: "string \<Rightarrow> pyfloat \<Rightarrow> rates \<Rightarrow> rates" where
  "update display_name yearly_funding_rate rs = setitem display_name (Some yearly_funding_rate) rs"

definition snapshot :: "rates \<Rightarrow> rates" where
  "snapshot rs = rs"

text \<open>
  A run of the process, seen from the aggregate: the critical sections in the order in
  which the lock admitted them. \<open>run\<close> returns the snapshots taken, \<open>final\<close> the aggregate
  at the end.
\<close>

datatype event = Update string pyfloat | Snapshot

fun run :: "rates \<Rightarrow> event list \<Rightarrow> rates list" where
  "run rs [] = []"
| "run rs (Update name v # es) = run (update name v rs) es"
| "run rs (Snapshot # es) = snapshot rs # run rs es"

fun final :: "rates \<Rightarrow> event list \<Rightarrow> rates" where
  "final rs [] = rs"
| "final rs (Update name v # es) = final (update name v rs) es"
| "final rs (Snapshot # es) = final rs es"

text \<open>The last value an event list assigns to an instrument, in the words of the spec.\<close>

fun last_update :: "string \<Rightarrow> event list \<Rightarrow> pyfloat option" where
  "last_update name [] = None"
| "last_update name (Update n v # es) =
     (case last_update name es of Some w \<Rightarrow> Some w | None \<Rightarrow> if n = name then Some v else None)"
| "last_update name (Snapshot # es) = last_update name es"

subsection \<open>Persistence of a snapshot\<close>

type_synonym csv = "string list list"

fun row_cells :: "rates \<Rightarrow> string list \<Rightarrow> py_error + string list" where
  "row_cells rs [] = Inr []"
| "row_cells rs (name # names) =
     (case getitem rs name of
        Inl e \<Rightarrow> Inl e
      | Inr None \<Rightarrow> Inl TypeError
      | Inr (Some v) \<Rightarrow>
          (case row_cells rs names of Inl e \<Rightarrow> Inl e | Inr cells \<Rightarrow> Inr ((format_2f v @ ''%'') # cells)))"

definition write_to_csv :: "string \<Rightarrow> rates \<Rightarrow> csv \<Rightarrow> py_error + csv" where
  "write_to_csv timestamp rs csvfile =
     (if None \<in> set (map snd rs) then Inr csvfile
      else case row_cells rs display_names of
             Inl e \<Rightarrow> Inl e
           | Inr cells \<Rightarrow> Inr (csvfile @ [timestamp # cells]))"

subsection \<open>The stream of one instrument\<close>

definition websocket_url_base :: string where
  "websocket_url_base = ''wss://fstream.binance.com/ws/''"

definition yearly_funding_rate :: "pyfloat \<Rightarrow> pyfloat" where
  "yearly_funding_rate funding_rate = fmul (fmul (fmul funding_rate 3) 365) 100"

text \<open>The body of the inner \<open>while True\<close>: one frame.\<close>

definition on_frame :: "string \<Rightarrow> frame \<Rightarrow> rates \<Rightarrow> py_error + rates" where
  "on_frame display_name fr rs =
     (case fr of
        Closed \<Rightarrow> Inl ConnectionClosed
      | Undecodable message \<Rightarrow> Inl JSONDecodeError
      | Decoded data \<Rightarrow>
          (case py_getitem data ''r'' of
             Inl e \<Rightarrow> Inl e
           | Inr r \<Rightarrow>
               (case py_float r of
                  Inl e \<Rightarrow> Inl e
                | Inr funding_rate \<Rightarrow>
                    Inr (update display_name (yearly_funding_rate funding_rate) rs))))"

text \<open>
  The inner loop has no handler of its own: the first exception leaves it, and with it the
  \<open>async with connect(...)\<close> block, which closes the connection. \<open>None\<close>: the frames are
  used up and the loop waits in \<open>recv\<close>.
\<close>

fun receive_loop :: "string \<Rightarrow> frame list \<Rightarrow> rates \<Rightarrow> py_error option \<times> rates" where
  "receive_loop display_name [] rs = (None, rs)"
| "receive_loop display_name (fr # frs) rs =
     (case on_frame display_name fr rs of
        Inl e \<Rightarrow> (Some e, rs)
      | Inr rs' \<Rightarrow> receive_loop display_name frs rs')"

text \<open>The three handlers of the outer \<open>try\<close>, in their order.\<close>

definition sleep_after :: "py_error \<Rightarrow> pyfloat" where
  "sleep_after e = (if e = ConnectionClosed then 5 else if e = JSONDecodeError then 1 else 5)"

fun continuous_funding_stream ::
  "string \<Rightarrow> string \<Rightarrow> connection list \<Rightarrow> rates \<Rightarrow> rates \<times> action list" where
  "continuous_funding_stream symbol display_name [] rs = (rs, [])"
| "continuous_funding_stream symbol display_name (Refused t # cs) rs =
     (let (rs', acts) = continuous_funding_stream symbol display_name cs rs
      in (rs', [Connect (websocket_url_base @ symbol @ ''@markPrice''), LogError OSError,
                Sleep (sleep_after OSError)] @ acts))"
| "continuous_funding_stream symbol display_name (Opened frs # cs) rs =
     (case receive_loop display_name frs rs of
        (None, rs') \<Rightarrow> (rs', [Connect (websocket_url_base @ symbol @ ''@markPrice'')])
      | (Some e, rs') \<Rightarrow>
          (let (rs'', acts) = continuous_funding_stream symbol display_name cs rs'
           in (rs'', [Connect (websocket_url_base @ symbol @ ''@markPrice''), LogError e,
                      Sleep (sleep_after e)] @ acts)))"

fun sleeps :: "action list \<Rightarrow> pyfloat list" where
  "sleeps [] = []"
| "sleeps (Sleep d # acts) = d # sleeps acts"
| "sleeps (a # acts) = sleeps acts"

subsection \<open>The scheduler\<close>

text \<open>The fields of \<open>datetime.now(timezone.utc)\<close> that the scheduler reads.\<close>

record datetime =
  hour :: int
  minute :: int
  second :: int
  microsecond :: int

definition valid_time :: "datetime \<Rightarrow> bool" where
  "valid_time now \<longleftrightarrow>
     0 \<le> hour now \<and> hour now < 24 \<and> 0 \<le> minute now \<and> minute now < 60 \<and>
     0 \<le> second now \<and> second now < 60 \<and> 0 \<le> microsecond now \<and> microsecond now < 1000000"

definition seconds_to_next_minute :: "datetime \<Rightarrow> int" where
  "seconds_to_next_minute now =
     (let s = 60 - second now in if s = 60 then 0 else s)"

definition wait_time :: "datetime \<Rightarrow> pyfloat" where
  "wait_time now =
     (let microseconds_to_wait = seconds_to_next_minute now * 1000000 - microsecond now
      in int_truediv microseconds_to_wait 1000000)"

text \<open>
  The clock, idealised: \<open>asyncio.sleep(delay)\<close> returns after exactly \<open>delay\<close> seconds, and
  at once when \<open>delay\<close> is zero or negative. Times are counted in microseconds of the day.
\<close>

definition asyncio_sleep :: "pyfloat \<Rightarrow> pyfloat" where
  "asyncio_sleep delay = (if delay \<le> 0 then 0 else delay)"

definition to_microseconds :: "datetime \<Rightarrow> int" where
  "to_microseconds t =
     ((hour t * 60 + minute t) * 60 + second t) * 1000000 + microsecond t"

definition of_microseconds :: "int \<Rightarrow> datetime" where
  "of_microseconds n =
     \<lparr>hour = n div 3600000000 mod 24, minute = n div 60000000 mod 60,
      second = n div 1000000 mod 60, microsecond = n mod 1000000\<rparr>"

definition after :: "datetime \<Rightarrow> pyfloat \<Rightarrow> datetime" where
  "after now delay = of_microseconds (to_microseconds now + \<lfloor>asyncio_sleep delay * 1000000\<rfloor>)"

text \<open>\<open>replace(second=0, microsecond=0)\<close> and \<open>strftime('%H:%M:%S')\<close>.\<close>

definition two_digits :: "int \<Rightarrow> string" where
  "two_digits n = [digit_char (n div 10 mod 10), digit_char (n mod 10)]"

definition strftime_hms :: "datetime \<Rightarrow> string" where
  "strftime_hms t = two_digits (hour t) @ '':'' @ two_digits (minute t) @ '':'' @ two_digits (second t)"

definition collection_time :: "datetime \<Rightarrow> datetime" where
  "collection_time t = t\<lparr>second := 0, microsecond := 0\<rparr>"

text \<open>The colours of one console line.\<close>

definition colors :: "pyfloat \<Rightarrow> string \<times> string" where
  "colors rate =
     (if rate > 50 then (''black'', ''on_red'')
      else if rate > 30 then (''black'', ''on_yellow'')
      else if rate > 5 then (''black'', ''on_cyan'')
      else if rate < - 10 then (''black'', ''on_green'')
      else (''black'', ''on_light_green''))"

fun cprint_rates :: "rates \<Rightarrow> (string \<times> string \<times> string) list" where
  "cprint_rates [] = []"
| "cprint_rates ((name, None) # rs) = cprint_rates rs"
| "cprint_rates ((name, Some rate) # rs) =
     (name @ '' funding: '' @ format_2f rate @ ''%'', colors rate) # cprint_rates rs"

text \<open>
  One turn of the scheduler's loop. \<open>now\<close> is the clock at the top of the loop, \<open>rs\<close> the
  aggregate when the lock is taken, \<open>csvfile\<close> the rows of the file. The turn sleeps
  \<open>wait_time now\<close>, reads the clock again, copies and prints the aggregate, writes, and
  sleeps 55 seconds.
\<close>

record cycle =
  waited :: pyfloat
  stamp :: string
  printed :: "(string \<times> string \<times> string) list"
  written :: "py_error + csv"
  buffer :: pyfloat

definition scheduled_data_collection :: "datetime \<Rightarrow> rates \<Rightarrow> csv \<Rightarrow> cycle" where
  "scheduled_data_collection now rs csvfile =
     (let collection_time_str = strftime_hms (collection_time (after now (wait_time now)));
          snap = snapshot rs
      in \<lparr>waited = wait_time now,
          stamp = collection_time_str,
          printed = cprint_rates snap,
          written = write_to_csv collection_time_str snap csvfile,
          buffer = 55\<rparr>)"

subsection \<open>The process\<close>

text \<open>
  \<open>main\<close> starts one stream for each pair of \<open>zip(symbols, display_names)\<close>, and the
  scheduler. Seen from the aggregate, a run of the process is a sequence of events: a frame
  arrives on the connection of a symbol and the stream of that symbol handles it, or the
  scheduler takes its snapshot. No stream listens to a symbol that is not in the list.
  \<open>main_run\<close> returns the aggregate at the end and the snapshots taken.
\<close>

definition websocket_tasks :: "(string \<times> string) list" where
  "websocket_tasks = zip symbols display_names"

datatype main_event = Received string frame | Collected

fun main_run :: "rates \<Rightarrow> main_event list \<Rightarrow> rates \<times> rates list" where
  "main_run rs [] = (rs, [])"
| "main_run rs (Received symbol fr # evs) =
     (case map_of websocket_tasks symbol of
        None \<Rightarrow> main_run rs evs
      | Some display_name \<Rightarrow>
          (case on_frame display_name fr rs of
             Inl e \<Rightarrow> main_run rs evs
           | Inr rs' \<Rightarrow> main_run rs' evs))"
| "main_run rs (Collected # evs) =
     (let (rs', snaps) = main_run rs evs in (rs', snapshot rs # snaps))"

section \<open>liqs.py\<close>

subsection \<open>One liquidation\<close>

definition TOKENS_TO_WATCH :: "string list" where
  "TOKENS_TO_WATCH = [''BTC'', ''ETH'', ''SOL'', ''XRP'', ''AVAX'', ''BNB'']"

text \<open>The \<open>for token in TOKENS_TO_WATCH\<close> loop with its \<open>break\<close>.\<close>

fun base_token_of :: "string \<Rightarrow> string list \<Rightarrow> string option" where
  "base_token_of symbol [] = None"
| "base_token_of symbol (token # tokens) =
     (if prefix token symbol then Some token else base_token_of symbol tokens)"

text \<open>
  A row is kept as its cells: what \<open>','.join(map(str, ...))\<close> makes of them is the same
  for both files. The console line is kept as the parts of the \<open>cprint\<close> call.
\<close>

datatype cell = Field json | Text string | Number pyfloat

record console_line =
  c_type :: string
  c_token :: string
  c_time :: string
  c_usd :: pyfloat
  c_color :: string
  c_bold :: bool

text \<open>
  The files, the console and the bot's log. Opening and appending to a file are taken to
  succeed.
\<close>

record liq_state =
  main_file :: "cell list list"
  token_file :: "string \<Rightarrow> cell list list"
  console :: "console_line list"
  bot_log :: "string list"

definition log_message :: "string \<Rightarrow> liq_state \<Rightarrow> liq_state" where
  "log_message message st = st\<lparr>bot_log := bot_log st @ [message]\<rparr>"

definition get_or_empty :: "json \<Rightarrow> string \<Rightarrow> json" where
  "get_or_empty order_data key =
     (case py_get order_data key (JStr '''') of Inr v \<Rightarrow> v | Inl e \<Rightarrow> JStr '''')"

definition msg_values :: "string \<Rightarrow> json \<Rightarrow> pyfloat \<Rightarrow> cell list" where
  "msg_values full_symbol order_data usd_size =
     Text full_symbol
       # map (\<lambda>key. Field (get_or_empty order_data key))
           [''S'', ''o'', ''f'', ''q'', ''p'', ''ap'', ''X'', ''l'', ''z'', ''T'']
       @ [Number usd_size]"

text \<open>
  The filled quantity, the price and their product, inside the \<open>try\<close> whose handler
  catches \<open>KeyError\<close> and \<open>ValueError\<close>.
\<close>

definition usd_size_of :: "json \<Rightarrow> py_error + pyfloat" where
  "usd_size_of order_data =
     (case py_getitem order_data ''z'' of
        Inl e \<Rightarrow> Inl e
      | Inr z \<Rightarrow>
          (case py_float z of
             Inl e \<Rightarrow> Inl e
           | Inr filled_quantity \<Rightarrow>
               (case py_getitem order_data ''p'' of
                  Inl e \<Rightarrow> Inl e
                | Inr p \<Rightarrow>
                    (case py_float p of
                       Inl e \<Rightarrow> Inl e
                     | Inr price \<Rightarrow> Inr (fmul filled_quantity price)))))"

text \<open>
  The part after the threshold. \<open>strftime_est\<close> stands for
  \<open>datetime.fromtimestamp(\<dots>, est).strftime('%H:%M:%S')\<close>, which needs the time zone
  database and raises on a timestamp out of range.
\<close>

definition record_liquidation ::
  "(pyfloat \<Rightarrow> py_error + string) \<Rightarrow> string \<Rightarrow> string \<Rightarrow> json \<Rightarrow> json \<Rightarrow> int \<Rightarrow> pyfloat
     \<Rightarrow> liq_state \<Rightarrow> py_error + liq_state" where
  "record_liquidation strftime_est full_symbol base_token order_data side timestamp usd_size st =
     (case strftime_est (int_truediv timestamp 1000) of
        Inl e \<Rightarrow> Inl e
      | Inr hms \<Rightarrow>
          (let line = \<lparr>c_type = (if side = JStr ''SELL'' then ''L LIQ'' else ''S LIQ''),
                       c_token = base_token, c_time = hms, c_usd = usd_size,
                       c_color = (if side = JStr ''SELL'' then ''green'' else ''red''),
                       c_bold = (usd_size > 10000)\<rparr>;
               row = msg_values full_symbol order_data usd_size
           in Inr (st\<lparr>console := console st @ [line],
                      main_file := main_file st @ [row],
                      token_file := (token_file st)
                        (base_token := token_file st base_token @ [row @ [Text hms]])\<rparr>)))"

definition process_liquidation ::
  "(pyfloat \<Rightarrow> py_error + string) \<Rightarrow> json \<Rightarrow> liq_state \<Rightarrow> py_error + liq_state" where
  "process_liquidation strftime_est order_data st =
     (case py_getitem order_data ''s'' of
        Inl e \<Rightarrow> Inl e
      | Inr (JStr full_symbol) \<Rightarrow>
          (let symbol = replace_str ''USDT'' '''' full_symbol
           in case base_token_of symbol TOKENS_TO_WATCH of
                None \<Rightarrow> Inr st
              | Some base_token \<Rightarrow>
                  (case py_getitem order_data ''S'' of
                     Inl e \<Rightarrow> Inl e
                   | Inr side \<Rightarrow>
                       (case py_getitem order_data ''T'' of
                          Inl e \<Rightarrow> Inl e
                        | Inr T \<Rightarrow>
                            (case py_int T of
                               Inl e \<Rightarrow> Inl e
                             | Inr timestamp \<Rightarrow>
                                 (case usd_size_of order_data of
                                    Inl e \<Rightarrow>
                                      if e = KeyError \<or> e = ValueError
                                      then Inr (log_message
                                             (''Warning: Invalid data in liquidation for '' @ symbol) st)
                                      else Inl e
                                  | Inr usd_size \<Rightarrow>
                                      if usd_size < 3000 then Inr st
                                      else record_liquidation strftime_est full_symbol base_token
                                             order_data side timestamp usd_size st)))))
      | Inr other \<Rightarrow> Inl AttributeError)"

subsection \<open>The connection loop\<close>

text \<open>
  The inner loop has its own handlers: a closed connection breaks out of it, every other
  exception is logged and the loop goes on to the next frame. \<open>True\<close>: the loop was left
  by \<open>break\<close>; \<open>False\<close>: the frames are used up and the loop waits in \<open>recv\<close>.
\<close>

definition on_liquidation_frame ::
  "(pyfloat \<Rightarrow> py_error + string) \<Rightarrow> json \<Rightarrow> liq_state \<Rightarrow> py_error + liq_state" where
  "on_liquidation_frame strftime_est data st =
     (case py_contains ''o'' data of
        Inl e \<Rightarrow> Inl e
      | Inr False \<Rightarrow> Inr st
      | Inr True \<Rightarrow>
          (case py_getitem data ''o'' of
             Inl e \<Rightarrow> Inl e
           | Inr order_data \<Rightarrow> process_liquidation strftime_est order_data st))"

fun liquidation_loop ::
  "(pyfloat \<Rightarrow> py_error + string) \<Rightarrow> frame list \<Rightarrow> liq_state \<Rightarrow> bool \<times> liq_state" where
  "liquidation_loop strftime_est [] st = (False, st)"
| "liquidation_loop strftime_est (Closed # frs) st =
     (True, log_message ''WebSocket connection closed unexpectedly. Reconnecting...'' st)"
| "liquidation_loop strftime_est (Undecodable msg # frs) st =
     liquidation_loop strftime_est frs
       (log_message (''Error decoding JSON: '' @ take 100 msg @ ''...'') st)"
| "liquidation_loop strftime_est (Decoded data # frs) st =
     (case on_liquidation_frame strftime_est data st of
        Inl e \<Rightarrow> liquidation_loop strftime_est frs (log_message ''Error processing message'' st)
      | Inr st' \<Rightarrow> liquidation_loop strftime_est frs st')"

definition max_backoff :: int where
  "max_backoff = 60"

text \<open>The argument of the \<open>asyncio.sleep\<close> in the handler of the outer \<open>try\<close>.\<close>

definition backoff_sleep :: "int \<Rightarrow> pyfloat \<Rightarrow> pyfloat" where
  "backoff_sleep backoff t = fadd (of_int backoff) (fmul (fmul (b64 (1 / 10)) (of_int backoff)) t)"

text \<open>
  The outer loop, from a given value of \<open>backoff\<close>; the program starts it at 1. It returns
  the state and the sleeps of the reconnect handler, in order.
\<close>

fun binance_liquidation_from ::
  "(pyfloat \<Rightarrow> py_error + string) \<Rightarrow> int \<Rightarrow> connection list \<Rightarrow> liq_state
     \<Rightarrow> liq_state \<times> pyfloat list" where
  "binance_liquidation_from strftime_est backoff [] st = (st, [])"
| "binance_liquidation_from strftime_est backoff (Refused t # cs) st =
     (let (st', ds) = binance_liquidation_from strftime_est (min (backoff * 2) max_backoff) cs
                        (log_message ''Reconnecting''
                           (log_message ''Connection error'' st))
      in (st', backoff_sleep backoff t # ds))"
| "binance_liquidation_from strftime_est backoff (Opened frs # cs) st =
     (case liquidation_loop strftime_est frs (log_message ''WebSocket connected successfully'' st) of
        (True, st') \<Rightarrow> binance_liquidation_from strftime_est 1 cs st'
      | (False, st') \<Rightarrow> (st', []))"

definition binance_liquidation ::
  "(pyfloat \<Rightarrow> py_error + string) \<Rightarrow> connection list \<Rightarrow> liq_state \<Rightarrow> liq_state \<times> pyfloat list" where
  "binance_liquidation strftime_est cs st = binance_liquidation_from strftime_est 1 cs st"

text \<open>The value of \<open>backoff\<close> after a run of connection attempts.\<close>

fun backoff_after :: "int \<Rightarrow> connection list \<Rightarrow> int" where
  "backoff_after backoff [] = backoff"
| "backoff_after backoff (Refused t # cs) = backoff_after (min (backoff * 2) max_backoff) cs"
| "backoff_after backoff (Opened frs # cs) = backoff_after 1 cs"

section \<open>The spec's formulas\<close>

text \<open>The spec's reconnect delay: \<open>min(initialDelay \<times> 2^attempt, maxDelay)\<close>.\<close>

definition nextDelay :: "int \<Rightarrow> int \<Rightarrow> nat \<Rightarrow> int" where
  "nextDelay initialDelay maxDelay attempt = min (initialDelay * 2 ^ attempt) maxDelay"

text \<open>
  The spec's wait of the scheduler: the time that remains to the next \<open>:00\<close> second, in
  seconds; nothing remains on the boundary itself.
\<close>

definition remaining_to_next_minute :: "datetime \<Rightarrow> rat" where
  "remaining_to_next_minute now =
     of_int ((60000000 - (second now * 1000000 + microsecond now)) mod 60000000)
       / 1000000"

text \<open>The spec's severity bands, and the colour in which the console shows each.\<close>

datatype severity = SevereHigh | High | Elevated | SevereLow | Neutral

definition severity_of :: "pyfloat \<Rightarrow> severity" where
  "severity_of v =
     (if v > 50 then SevereHigh else if v > 30 then High else if v > 5 then Elevated
      else if v < - 10 then SevereLow else Neutral)"

fun back_color_of :: "severity \<Rightarrow> string" where
  "back_color_of SevereHigh = ''on_red''"
| "back_color_of High = ''on_yellow''"
| "back_color_of Elevated = ''on_cyan''"
| "back_color_of SevereLow = ''on_green''"
| "back_color_of Neutral = ''on_light_green''"

section \<open>Example inputs\<close>

definition partial_rates :: rates where
  "partial_rates = [(''BTC'', Some 1), (''ETH'', Some 1), (''SOL'', None),
      (''XRP'', Some 0), (''BNB'', Some 0), (''DOGE'', Some (5 / 2))]"

definition full_rates :: rates where
  "full_rates = [(''BTC'', Some (6164301989963367 / 562949953421312)), (''ETH'', Some 1),
      (''SOL'', Some (- 12)), (''XRP'', Some 0), (''BNB'', Some 0), (''DOGE'', Some (5 / 2))]"

definition start_example :: datetime where
  "start_example = \<lparr>hour = 12, minute = 0, second = 37, microsecond = 250000\<rparr>"

definition boundary_example :: datetime where
  "boundary_example = \<lparr>hour = 12, minute = 0, second = 0, microsecond = 250000\<rparr>"

definition rate_frame :: frame where
  "rate_frame = Decoded (JObj [(''r'', JStr ''0.0001'')])"

definition no_clock :: "pyfloat \<Rightarrow> py_error + string" where
  "no_clock t = Inl OverflowError"

definition empty_files :: liq_state where
  "empty_files = \<lparr>main_file = [], token_file = (\<lambda>t. []), console = [], bot_log = []\<rparr>"

definition est_example :: "pyfloat \<Rightarrow> py_error + string" where
  "est_example t = (if t = 1700000000 then Inr ''17:13:20'' else Inl OverflowError)"

definition btc_order :: "string \<Rightarrow> json" where
  "btc_order z =
     JObj [(''s'', JStr ''BTCUSDT''), (''S'', JStr ''SELL''), (''o'', JStr ''LIMIT''),
           (''f'', JStr ''IOC''), (''q'', JStr z), (''p'', JStr ''90000''),
           (''ap'', JStr ''90000''), (''X'', JStr ''FILLED''), (''l'', JStr z), (''z'', JStr z),
           (''T'', JInt 1700000000000)]"

definition order_frame :: frame where
  "order_frame = Decoded (JObj [(''e'', JStr ''forceOrder''), (''o'', btc_order ''0.5'')])"

definition btc_row :: "cell list" where
  "btc_row =
     [Text ''BTCUSDT'', Field (JStr ''SELL''), Field (JStr ''LIMIT''), Field (JStr ''IOC''),
      Field (JStr ''0.5''), Field (JStr ''90000''), Field (JStr ''90000''),
      Field (JStr ''FILLED''), Field (JStr ''0.5''), Field (JStr ''0.5''),
      Field (JInt 1700000000000), Number 45000]"

definition btc_line :: console_line where
  "btc_line = \<lparr>c_type = ''L LIQ'', c_token = ''BTC'', c_time = ''17:13:20'', c_usd = 45000,
               c_color = ''green'', c_bold = True\<rparr>"

section \<open>Dictionaries and the aggregate\<close>

lemma display_names_eq:
  "display_names = [''BTC'', ''ETH'', ''SOL'', ''XRP'', ''BNB'', ''DOGE'']"
  by code_simp

lemma map_fst_setitem:
  "k \<in> set (map fst d) \<Longrightarrow> map fst (setitem k v d) = map fst d"
  by (induction d) (auto simp: rev_image_eqI)

lemma map_of_setitem:
  "map_of (setitem k v d) k' = (if k' = k then Some v else map_of d k')"
  by (induction d) auto

lemma distinct_display_names: "distinct display_names"
  by (simp add: display_names_eq)

lemma final_append: "final rs (es @ fs) = final (final rs es) fs"
  by (induction rs es rule: final.induct) simp_all

lemma run_append: "run rs (es @ fs) = run rs es @ run (final rs es) fs"
  by (induction rs es rule: run.induct) simp_all

lemma map_of_final:
  "map_of (final rs es) name =
     (case last_update name es of Some v \<Rightarrow> Some (Some v) | None \<Rightarrow> map_of rs name)"
  by (induction rs es rule: final.induct)
     (auto simp: update_def map_of_setitem split: option.splits)

lemma map_of_current_rates:
  "map_of current_rates name = (if name \<in> set display_names then Some None else None)"
  by (simp add: current_rates_def map_of_map_restrict restrict_map_def)

lemma map_fst_update:
  "name \<in> set (map fst rs) \<Longrightarrow> map fst (update name v rs) = map fst rs"
  by (simp add: update_def map_fst_setitem)

lemma map_fst_current_rates: "map fst current_rates = display_names"
  by (simp add: current_rates_def comp_def)

lemma row_cells_complete:
  "\<forall>name\<in>set names. \<exists>v. map_of rs name = Some (Some v) \<Longrightarrow>
   row_cells rs names = Inr (map (\<lambda>name. format_2f (the (the (map_of rs name))) @ ''%'') names)"
  by (induction names) (auto simp: getitem_def)

lemma none_in_values:
  "distinct (map fst rs) \<Longrightarrow>
   None \<in> set (map snd rs) \<longleftrightarrow> (\<exists>name\<in>set (map fst rs). map_of rs name = Some None)"
  by (force simp: map_of_eq_Some_iff)


lemma all_populated:
  assumes "distinct (map fst rs)" and "None \<notin> set (map snd rs)"
  shows "\<forall>name\<in>set (map fst rs). \<exists>v. map_of rs name = Some (Some v)"
proof
  fix name assume "name \<in> set (map fst rs)"
  then obtain y where y: "(name, y) \<in> set rs" by auto
  then have "y \<in> set (map snd rs)" by force
  with assms(2) obtain v where "y = Some v" by (cases y) auto
  with y assms(1) show "\<exists>v. map_of rs name = Some (Some v)" by simp
qed

section \<open>The aggregate: claims C1, C9 and C2\<close>

text \<open>
  Claim C1. Whatever updates (and earlier snapshots) go before a snapshot, and whatever
  follows it, the snapshot is the aggregate as the events before it left it: for each
  instrument it holds the last value assigned to that instrument before the snapshot, and
  no value (\<open>None\<close>) when there was no assignment. A snapshot is taken at one point
  of the sequence, so it never holds a value from after that point beside values from
  before it.
\<close>

theorem snapshot_is_last_update:
  "run current_rates (es @ Snapshot # fs)
     = run current_rates es @ final current_rates es # run (final current_rates es) fs
   \<and> (\<forall>name\<in>set display_names.
         map_of (final current_rates es) name = Some (last_update name es))"
proof -
  have "run current_rates (es @ Snapshot # fs)
          = run current_rates es @ final current_rates es # run (final current_rates es) fs"
    by (simp add: run_append snapshot_def)
  moreover have "map_of (final current_rates es) name = Some (last_update name es)"
    if "name \<in> set display_names" for name
    using that by (simp add: map_of_final map_of_current_rates split: option.split)
  ultimately show ?thesis by blast
qed

theorem snapshot_is_last_update_witness:
  "run current_rates ([Update ''BTC'' 1, Update ''ETH'' 2, Update ''BTC'' 3] @ Snapshot # [Update ''BTC'' 4])
     = [final current_rates [Update ''BTC'' 1, Update ''ETH'' 2, Update ''BTC'' 3]]
   \<and> map_of (final current_rates [Update ''BTC'' 1, Update ''ETH'' 2, Update ''BTC'' 3]) ''BTC''
       = Some (Some 3)
   \<and> map_of (final current_rates [Update ''BTC'' 1, Update ''ETH'' 2, Update ''BTC'' 3]) ''SOL''
       = Some None"
  using snapshot_is_last_update
          [of "[Update ''BTC'' 1, Update ''ETH'' 2, Update ''BTC'' 3]" "[Update ''BTC'' 4]"]
  by (simp add: display_names_eq)

lemma on_frame_keys:
  assumes "display_name \<in> set (map fst rs)" and "on_frame display_name fr rs = Inr rs'"
  shows "map fst rs' = map fst rs"
proof -
  from assms(2) obtain v where "rs' = update display_name v rs"
    by (auto simp: on_frame_def split: frame.splits sum.splits)
  then show ?thesis
    using map_fst_update [OF assms(1)] by simp
qed

lemma receive_loop_keys:
  "display_name \<in> set (map fst rs) \<Longrightarrow>
   map fst (snd (receive_loop display_name frs rs)) = map fst rs"
proof (induction frs arbitrary: rs)
  case Nil
  then show ?case by simp
next
  case (Cons fr frs)
  show ?case
  proof (cases "on_frame display_name fr rs")
    case (Inl e)
    then show ?thesis by simp
  next
    case (Inr rs')
    from on_frame_keys [OF Cons.prems Inr] have k: "map fst rs' = map fst rs" .
    with Cons.prems have "display_name \<in> set (map fst rs')" by simp
    from Cons.IH [OF this] k Inr show ?thesis by simp
  qed
qed

lemma stream_keys:
  "display_name \<in> set (map fst rs) \<Longrightarrow>
   map fst (fst (continuous_funding_stream symbol display_name cs rs)) = map fst rs"
proof (induction cs arbitrary: rs)
  case Nil
  then show ?case by simp
next
  case (Cons c cs)
  show ?case
  proof (cases c)
    case (Refused t)
    with Cons show ?thesis by (simp add: split_beta)
  next
    case (Opened frs)
    obtain r rs' where l: "receive_loop display_name frs rs = (r, rs')"
      by (cases "receive_loop display_name frs rs")
    from receive_loop_keys [OF Cons.prems, of frs] l have k: "map fst rs' = map fst rs"
      by simp
    with Cons.prems have "display_name \<in> set (map fst rs')" by simp
    from Cons.IH [OF this] k l Opened show ?thesis
      by (cases r) (simp_all add: split_beta)
  qed
qed

lemma task_is_key:
  assumes "(symbol, display_name) \<in> set websocket_tasks"
  shows "display_name \<in> set (map fst current_rates)"
  using assms unfolding websocket_tasks_def map_fst_current_rates
  by (rule set_zip_rightD)

lemma main_run_keys:
  assumes "map fst rs = map fst current_rates"
  shows "map fst (fst (main_run rs evs)) = map fst current_rates
       \<and> (\<forall>s\<in>set (snd (main_run rs evs)). map fst s = map fst current_rates)"
  using assms
proof (induction rs evs rule: main_run.induct)
  case (1 rs)
  then show ?case by simp
next
  case (2 rs symbol fr evs)
  show ?case
  proof (cases "map_of websocket_tasks symbol")
    case None
    from "2.IH"(1) [OF None "2.prems"] None show ?thesis by simp
  next
    case (Some display_name)
    then have "(symbol, display_name) \<in> set websocket_tasks" by (rule map_of_SomeD)
    then have key: "display_name \<in> set (map fst rs)"
      using task_is_key "2.prems" by simp
    show ?thesis
    proof (cases "on_frame display_name fr rs")
      case (Inl e)
      from "2.IH"(2) [OF Some Inl "2.prems"] Some Inl show ?thesis by simp
    next
      case (Inr rs')
      from on_frame_keys [OF key Inr] "2.prems" have "map fst rs' = map fst current_rates"
        by simp
      from "2.IH"(3) [OF Some Inr this] Some Inr show ?thesis by simp
    qed
  qed
next
  case (3 rs evs)
  from "3.IH" [OF "3.prems"] "3.prems" show ?case
    by (simp add: split_beta snapshot_def)
qed


text \<open>
  Claim C9. The aggregate starts with exactly the six display names as keys, in order.
  Every stream that \<open>main\<close> starts is keyed by one of them, so whatever connections and
  frames it meets, it leaves the keys of the aggregate as they are: an update only
  overwrites the value of a key that is there. A snapshot has the keys of the aggregate
  it copies. Hence in every run of the process the aggregate and every snapshot have
  exactly the six keys.
\<close>

theorem key_set_invariant:
  "map fst current_rates = [''BTC'', ''ETH'', ''SOL'', ''XRP'', ''BNB'', ''DOGE'']
   \<and> map snd websocket_tasks = map fst current_rates
   \<and> (\<forall>(symbol, display_name)\<in>set websocket_tasks.
         map fst rs = map fst current_rates \<longrightarrow>
         map fst (update display_name v rs) = map fst current_rates
         \<and> map_of (update display_name v rs) = (map_of rs)(display_name \<mapsto> Some v)
         \<and> map fst (fst (continuous_funding_stream symbol display_name cs rs))
             = map fst current_rates)
   \<and> map fst (snapshot rs) = map fst rs
   \<and> map fst (fst (main_run current_rates evs)) = map fst current_rates
   \<and> (\<forall>s\<in>set (snd (main_run current_rates evs)). map fst s = map fst current_rates)"
proof -
  have a: "map fst current_rates = [''BTC'', ''ETH'', ''SOL'', ''XRP'', ''BNB'', ''DOGE'']"
    by (simp add: map_fst_current_rates display_names_eq)
  have b: "map snd websocket_tasks = map fst current_rates"
    by (simp add: websocket_tasks_def map_fst_current_rates symbols_def display_names_def)
  have u: "map_of (update display_name v rs) = (map_of rs)(display_name \<mapsto> Some v)"
    for display_name
    by (rule ext) (simp add: update_def map_of_setitem)
  have c: "map fst (update display_name v rs) = map fst current_rates
         \<and> map_of (update display_name v rs) = (map_of rs)(display_name \<mapsto> Some v)
         \<and> map fst (fst (continuous_funding_stream symbol display_name cs rs))
             = map fst current_rates"
    if t: "(symbol, display_name) \<in> set websocket_tasks"
      and k: "map fst rs = map fst current_rates"
    for symbol display_name
  proof -
    have i: "display_name \<in> set (map fst rs)"
      unfolding k by (rule task_is_key [OF t])
    from trans [OF map_fst_update [OF i] k] u trans [OF stream_keys [OF i] k]
    show ?thesis by (intro conjI)
  qed
  have c': "\<forall>(symbol, display_name)\<in>set websocket_tasks.
         map fst rs = map fst current_rates \<longrightarrow>
         map fst (update display_name v rs) = map fst current_rates
         \<and> map_of (update display_name v rs) = (map_of rs)(display_name \<mapsto> Some v)
         \<and> map fst (fst (continuous_funding_stream symbol display_name cs rs))
             = map fst current_rates"
  proof (rule ballI)
    fix x assume x: "x \<in> set websocket_tasks"
    obtain symbol display_name where p: "x = (symbol, display_name)" by (cases x)
    from x c [of symbol display_name] show "case x of (symbol, display_name) \<Rightarrow>
         map fst rs = map fst current_rates \<longrightarrow>
         map fst (update display_name v rs) = map fst current_rates
         \<and> map_of (update display_name v rs) = (map_of rs)(display_name \<mapsto> Some v)
         \<and> map fst (fst (continuous_funding_stream symbol display_name cs rs))
             = map fst current_rates"
      unfolding p by (simp only: prod.case) blast
  qed
  have d: "map fst (snapshot rs) = map fst rs"
    by (simp add: snapshot_def)
  have m: "map fst (fst (main_run current_rates evs)) = map fst current_rates
       \<and> (\<forall>s\<in>set (snd (main_run current_rates evs)). map fst s = map fst current_rates)"
    by (rule main_run_keys) (rule refl)
  from a b c' d m show ?thesis
    by (intro conjI) (erule conjunct1 conjunct2 | assumption)+
qed

theorem key_set_invariant_witness:
  "map fst (fst (continuous_funding_stream ''dogeusdt'' ''DOGE''
       [Opened [rate_frame, Undecodable ''{''], Refused 0, Opened [rate_frame, Closed]]
       current_rates))
     = [''BTC'', ''ETH'', ''SOL'', ''XRP'', ''BNB'', ''DOGE'']
   \<and> map fst (fst (main_run current_rates
       [Received ''ethusdt'' rate_frame, Collected, Received ''avaxusdt'' rate_frame]))
     = [''BTC'', ''ETH'', ''SOL'', ''XRP'', ''BNB'', ''DOGE'']"
proof -
  have t: "(''dogeusdt'', ''DOGE'') \<in> set websocket_tasks"
    by (simp add: websocket_tasks_def symbols_def display_names_eq)
  note k = key_set_invariant [of current_rates 0
      "[Opened [rate_frame, Undecodable ''{''], Refused 0, Opened [rate_frame, Closed]]"
      "[Received ''ethusdt'' rate_frame, Collected, Received ''avaxusdt'' rate_frame]"]
  from k have "map fst current_rates = [''BTC'', ''ETH'', ''SOL'', ''XRP'', ''BNB'', ''DOGE'']"
    by (rule conjunct1)
  moreover from k t have "map fst (fst (continuous_funding_stream ''dogeusdt'' ''DOGE''
       [Opened [rate_frame, Undecodable ''{''], Refused 0, Opened [rate_frame, Closed]]
       current_rates)) = map fst current_rates"
    by blast
  moreover from k have "map fst (fst (main_run current_rates
       [Received ''ethusdt'' rate_frame, Collected, Received ''avaxusdt'' rate_frame]))
     = map fst current_rates"
    by blast
  ultimately show ?thesis by simp
qed

text \<open>
  Claim C2. For a snapshot over the six instruments: when the sample of at least one
  instrument is still \<open>None\<close>, \<open>write_to_csv\<close> leaves the file as it is; when all
  are populated, it appends exactly one row, the time followed by the six formatted rates.
\<close>

theorem write_to_csv_rows:
  assumes "map fst rs = display_names"
  shows "((\<exists>name\<in>set display_names. map_of rs name = Some None) \<longrightarrow>
            write_to_csv timestamp rs csvfile = Inr csvfile)
       \<and> ((\<forall>name\<in>set display_names. \<exists>v. map_of rs name = Some (Some v)) \<longrightarrow>
            write_to_csv timestamp rs csvfile
              = Inr (csvfile @ [timestamp #
                  map (\<lambda>name. format_2f (the (the (map_of rs name))) @ ''%'') display_names]))"
proof -
  have d: "distinct (map fst rs)"
    using assms distinct_display_names by simp
  have n: "None \<in> set (map snd rs) \<longleftrightarrow> (\<exists>name\<in>set display_names. map_of rs name = Some None)"
    using none_in_values [OF d] assms by simp
  have "write_to_csv timestamp rs csvfile = Inr csvfile"
    if "\<exists>name\<in>set display_names. map_of rs name = Some None"
    using that n by (simp add: write_to_csv_def)
  moreover have "write_to_csv timestamp rs csvfile
      = Inr (csvfile @ [timestamp #
          map (\<lambda>name. format_2f (the (the (map_of rs name))) @ ''%'') display_names])"
    if a: "\<forall>name\<in>set display_names. \<exists>v. map_of rs name = Some (Some v)"
  proof -
    from a n have "None \<notin> set (map snd rs)" by fastforce
    then show ?thesis
      using row_cells_complete [OF a] by (simp add: write_to_csv_def)
  qed
  ultimately show ?thesis by blast
qed

lemma format_2f_examples:
  "format_2f (6164301989963367 / 562949953421312) = ''10.95''"
  "format_2f 1 = ''1.00''"
  "format_2f (- 12) = ''-12.00''"
  "format_2f 0 = ''0.00''"
  "format_2f (5 / 2) = ''2.50''"
  by code_simp+

lemma cells_example:
  "map (\<lambda>name. format_2f (the (the (map_of full_rates name))) @ ''%'') display_names
   = [''10.95%'', ''1.00%'', ''-12.00%'', ''0.00%'', ''0.00%'', ''2.50%'']"
  by (simp add: display_names_eq full_rates_def format_2f_examples)

theorem write_to_csv_rows_witness:
  "write_to_csv ''12:01:00'' partial_rates [] = Inr []
   \<and> write_to_csv ''12:01:00'' full_rates []
     = Inr [[''12:01:00'', ''10.95%'', ''1.00%'', ''-12.00%'', ''0.00%'', ''0.00%'', ''2.50%'']]"
proof -
  have k1: "map fst partial_rates = display_names"
    by (simp add: partial_rates_def display_names_eq)
  have u: "\<exists>name\<in>set display_names. map_of partial_rates name = Some None"
    by (simp add: partial_rates_def display_names_eq)
  have k2: "map fst full_rates = display_names"
    by (simp add: full_rates_def display_names_eq)
  have c: "\<forall>name\<in>set display_names. \<exists>v. map_of full_rates name = Some (Some v)"
    using all_populated [of full_rates] distinct_display_names
    unfolding k2 [symmetric] by (simp add: full_rates_def)
  have "write_to_csv ''12:01:00'' partial_rates [] = Inr []"
    using write_to_csv_rows [OF k1, of "''12:01:00''" "[]"] u by blast
  moreover have "write_to_csv ''12:01:00'' full_rates []
     = Inr [[''12:01:00'', ''10.95%'', ''1.00%'', ''-12.00%'', ''0.00%'', ''0.00%'', ''2.50%'']]"
    using write_to_csv_rows [OF k2, of "''12:01:00''" "[]"] c
    by (simp only: cells_example append_Nil)
  ultimately show ?thesis by (rule conjI)
qed

section \<open>Rounding to a double\<close>

lemma b64_0_0001: "b64 (1 / 10000) = 7378697629483821 / 73786976294838206464"
  by code_simp

lemma pow2_pos: "0 < pow2 e"
  by (simp add: pow2_def)

lemma pow2_mono: "d \<le> e \<Longrightarrow> pow2 d \<le> pow2 e"
  by (simp add: pow2_def power_int_increasing)

lemma round_half_even_neg: "q < - 1 / 2 \<Longrightarrow> round_half_even q < 0"
  unfolding round_half_even_def Let_def
  by (auto simp: not_less)

lemma bitlen_lower:
  assumes "0 < a"
  shows "(2::rat) powi (bitlen a - 1) \<le> of_int a"
proof -
  from assms have "1 \<le> bitlen a"
    by (simp add: bitlen_alt_def)
  then have p: "(2::rat) powi (bitlen a - 1) = 2 ^ nat (bitlen a - 1)"
    by (simp add: power_int_def)
  have "(2::int) ^ nat (bitlen a - 1) \<le> a"
    using bitlen_bounds [OF assms] by simp
  then have "(of_int ((2::int) ^ nat (bitlen a - 1)) :: rat) \<le> of_int a"
    by (simp only: of_int_le_iff)
  then show ?thesis by (simp add: p)
qed

lemma bitlen_upper:
  assumes "0 < b"
  shows "of_int b < (2::rat) powi (bitlen b)"
proof -
  have p: "(2::rat) powi (bitlen b) = 2 ^ nat (bitlen b)"
    by (simp add: power_int_def bitlen_nonneg)
  have "b < (2::int) ^ nat (bitlen b)"
    using bitlen_bounds [OF assms] by simp
  then have "(of_int b :: rat) < of_int ((2::int) ^ nat (bitlen b))"
    by (simp only: of_int_less_iff)
  then show ?thesis by (simp add: p)
qed

lemma binade_le:
  assumes "x \<noteq> 0"
  shows "pow2 (binade x) \<le> \<bar>x\<bar>"
proof -
  obtain a b where q: "quotient_of \<bar>x\<bar> = (a, b)" by (cases "quotient_of \<bar>x\<bar>")
  then have b: "0 < b" and x: "\<bar>x\<bar> = of_int a / of_int b"
    using quotient_of_denom_pos quotient_of_div by blast+
  have "0 < \<bar>x\<bar>" using assms by simp
  with x b have a: "0 < a"
    by (simp add: zero_less_divide_iff)
  let ?k = "bitlen a - bitlen b"
  show ?thesis
  proof (cases "pow2 ?k \<le> \<bar>x\<bar>")
    case True
    then show ?thesis by (simp add: binade_def q)
  next
    case False
    have "(2::rat) powi (?k - 1) = 2 powi (bitlen a - 1) / 2 powi (bitlen b)"
      by (simp add: power_int_diff)
    also have "\<dots> \<le> of_int a / 2 powi (bitlen b)"
      using bitlen_lower [OF a] by (simp add: divide_right_mono)
    also have "\<dots> \<le> of_int a / of_int b"
      using bitlen_upper [OF b] a b by (simp add: frac_le)
    finally have "pow2 (?k - 1) \<le> \<bar>x\<bar>" by (simp add: pow2_def x)
    with False show ?thesis by (simp add: binade_def q)
  qed
qed

lemma b64_neg:
  assumes "x < 0" and "pow2 (- 1022) \<le> \<bar>x\<bar>"
  shows "b64 x < 0"
proof -
  let ?e = "max (binade x - 52) (- 1074)"
  have x0: "x \<noteq> 0" using assms by simp
  have "pow2 ?e \<le> \<bar>x\<bar>"
  proof (cases "binade x - 52 \<le> - 1074")
    case True
    then have "pow2 ?e = pow2 (- 1074)" by (simp add: max_def)
    also have "\<dots> \<le> pow2 (- 1022)" by (rule pow2_mono) simp
    finally show ?thesis using assms(2) by simp
  next
    case False
    then have "pow2 ?e = pow2 (binade x - 52)" by (simp add: max_def)
    also have "\<dots> \<le> pow2 (binade x)" by (rule pow2_mono) simp
    finally show ?thesis using binade_le [OF x0] by simp
  qed
  then have "x / pow2 ?e \<le> - 1"
    using assms(1) pow2_pos [of ?e] by (simp add: field_simps)
  then have "round_half_even (x / pow2 ?e) < 0"
    by (intro round_half_even_neg) simp
  then have "(of_int (round_half_even (x / pow2 ?e)) :: rat) * pow2 ?e < 0"
    using pow2_pos [of ?e] by (simp add: mult_neg_pos)
  then show ?thesis using x0 by (simp add: b64_def Let_def)
qed

section \<open>The scheduler: claims C7 and C10\<close>

lemma divmod_step:
  fixes q d r :: int
  assumes "0 \<le> r" and "r < d"
  shows "(q * d + r) div d = q" and "(q * d + r) mod d = r"
  using assms by simp_all

lemma of_to_microseconds:
  assumes "valid_time t"
  shows "of_microseconds (to_microseconds t) = t"
proof -
  from assms have h: "0 \<le> hour t" "hour t < 24" and m: "0 \<le> minute t" "minute t < 60"
    and s: "0 \<le> second t" "second t < 60" and u: "0 \<le> microsecond t" "microsecond t < 1000000"
    by (simp_all add: valid_time_def)
  let ?n = "to_microseconds t"
  let ?A = "(hour t * 60 + minute t) * 60 + second t"
  have n: "?n = ?A * 1000000 + microsecond t"
    by (simp add: to_microseconds_def)
  have us: "?n mod 1000000 = microsecond t"
    unfolding n by (rule divmod_step(2) [OF u])
  have d1: "?n div 1000000 = ?A"
    unfolding n by (rule divmod_step(1) [OF u])
  have sec: "?A mod 60 = second t"
    by (rule divmod_step(2) [OF s])
  have d2: "?A div 60 = hour t * 60 + minute t"
    by (rule divmod_step(1) [OF s])
  have mi: "(hour t * 60 + minute t) mod 60 = minute t"
    by (rule divmod_step(2) [OF m])
  have d3: "(hour t * 60 + minute t) div 60 = hour t"
    by (rule divmod_step(1) [OF m])
  have hh: "hour t mod 24 = hour t"
    using h by (rule mod_pos_pos_trivial)
  have c1: "(60000000::int) = 1000000 * 60" and c2: "(3600000000::int) = 60000000 * 60"
    by simp_all
  have "?n div 60000000 = ?n div (1000000 * 60)"
    by (simp only: c1)
  also have "\<dots> = ?n div 1000000 div 60"
    by (rule zdiv_zmult2_eq) simp
  also have "\<dots> = ?A div 60"
    by (simp only: d1)
  also have "\<dots> = hour t * 60 + minute t"
    by (rule d2)
  finally have e2: "?n div 60000000 = hour t * 60 + minute t" .
  have "?n div 3600000000 = ?n div (60000000 * 60)"
    by (simp only: c2)
  also have "\<dots> = ?n div 60000000 div 60"
    by (rule zdiv_zmult2_eq) simp
  also have "\<dots> = (hour t * 60 + minute t) div 60"
    by (simp only: e2)
  also have "\<dots> = hour t"
    by (rule d3)
  finally have e3: "?n div 3600000000 = hour t" .
  have "of_microseconds ?n = \<lparr>hour = hour t, minute = minute t, second = second t,
          microsecond = microsecond t\<rparr>"
    unfolding of_microseconds_def by (simp only: us d1 sec e2 mi e3 hh)
  then show ?thesis by simp
qed

lemma wait_time_eq:
  "wait_time now =
     b64 (of_int ((if second now = 0 then 0 else 60 - second now) * 1000000 - microsecond now)
            / 1000000)"
  by (simp add: wait_time_def seconds_to_next_minute_def int_truediv_def Let_def)

lemma remaining_eq:
  assumes "valid_time now" and "second now \<noteq> 0 \<or> microsecond now = 0"
  shows "remaining_to_next_minute now =
     of_int ((if second now = 0 then 0 else 60 - second now) * 1000000 - microsecond now) / 1000000"
proof (cases "second now = 0")
  case True
  with assms(2) have "microsecond now = 0" by simp
  with True show ?thesis by (simp add: remaining_to_next_minute_def)
next
  case False
  from assms(1) have s: "0 \<le> second now" "second now < 60"
    and u: "0 \<le> microsecond now" "microsecond now < 1000000"
    by (simp_all add: valid_time_def)
  let ?v = "60000000 - (second now * 1000000 + microsecond now)"
  from False s u have "0 \<le> ?v" "?v < 60000000" by linarith+
  then have "?v mod 60000000 = ?v" by (rule mod_pos_pos_trivial)
  moreover have "?v = (60 - second now) * 1000000 - microsecond now"
    by (simp add: algebra_simps)
  ultimately have "?v mod 60000000 = (60 - second now) * 1000000 - microsecond now"
    by (rule trans)
  then show ?thesis unfolding remaining_to_next_minute_def using False by (simp only: if_False)
qed

lemma start_example_values:
  "wait_time start_example = 91 / 4"
  "after start_example (91 / 4) = \<lparr>hour = 12, minute = 1, second = 0, microsecond = 0\<rparr>"
  "remaining_to_next_minute start_example = 91 / 4"
  by code_simp+

lemma boundary_example_values:
  "wait_time boundary_example = - 1 / 4"
  "remaining_to_next_minute boundary_example = 239 / 4"
  "b64 (239 / 4) = 239 / 4"
  by code_simp+

text \<open>
  Claim C7 as stated fails. Started at 12:00:00.250 UTC, the scheduler computes a wait of
  \<open>-0.25\<close> seconds, while \<open>59.75\<close> seconds remain to the next \<open>:00\<close> second.
\<close>

theorem first_wait_counterexample:
  "valid_time boundary_example
   \<and> wait_time boundary_example = - 1 / 4
   \<and> remaining_to_next_minute boundary_example = 239 / 4
   \<and> wait_time boundary_example \<noteq> b64 (remaining_to_next_minute boundary_example)"
  by (simp add: boundary_example_values) (simp add: valid_time_def boundary_example_def)

text \<open>
  Claim C7, amended. At a time whose second is not 0, or exactly on a minute boundary, the
  wait of the scheduler is the time that remains to the next \<open>:00\<close> second, as the
  nearest double (0 on the boundary). Started at 12:00:37.250 the wait is 22.75 seconds
  and the trigger lands at 12:01:00.000. After acting the scheduler sleeps 55 seconds,
  less than 60, before it computes the wait again.
\<close>

theorem first_wait:
  assumes "valid_time now" and "second now \<noteq> 0 \<or> microsecond now = 0"
  shows "wait_time now = b64 (remaining_to_next_minute now)
       \<and> wait_time start_example = 91 / 4
       \<and> after start_example (wait_time start_example)
           = \<lparr>hour = 12, minute = 1, second = 0, microsecond = 0\<rparr>
       \<and> buffer (scheduled_data_collection now rs csvfile) = 55
       \<and> buffer (scheduled_data_collection now rs csvfile) < 60"
proof -
  have "wait_time now = b64 (remaining_to_next_minute now)"
    by (simp only: wait_time_eq remaining_eq [OF assms])
  moreover have "buffer (scheduled_data_collection now rs csvfile) = 55"
    by (simp add: scheduled_data_collection_def Let_def)
  ultimately show ?thesis
    by (simp add: start_example_values)
qed

theorem first_wait_witness:
  "valid_time \<lparr>hour = 23, minute = 59, second = 59, microsecond = 999999\<rparr>
   \<and> wait_time \<lparr>hour = 23, minute = 59, second = 59, microsecond = 999999\<rparr>
       = b64 (1 / 1000000)
   \<and> wait_time \<lparr>hour = 7, minute = 30, second = 0, microsecond = 0\<rparr> = 0"
proof -
  let ?a = "\<lparr>hour = 23, minute = 59, second = 59, microsecond = 999999\<rparr>"
  let ?b = "\<lparr>hour = 7, minute = 30, second = 0, microsecond = 0\<rparr>"
  have va: "valid_time ?a" and vb: "valid_time ?b"
    by (simp_all add: valid_time_def)
  have ra: "remaining_to_next_minute ?a = 1 / 1000000" and rb: "remaining_to_next_minute ?b = 0"
    by (simp_all add: remaining_to_next_minute_def)
  have b0: "b64 0 = 0" by (simp add: b64_def)
  from first_wait [OF va, of "[]" "[]"] have "wait_time ?a = b64 (1 / 1000000)"
    by (simp add: ra)
  moreover from first_wait [OF vb, of "[]" "[]"] have "wait_time ?b = 0"
    by (simp add: rb b0)
  ultimately show ?thesis using va by simp
qed

text \<open>
  Claim C10. At a time whose second is 0 and whose microsecond is positive, the wait is
  the double nearest to minus the microsecond fraction, which is negative; the sleep then
  returns at once, so the trigger is at that same instant and the collection time is the
  current minute.
\<close>

theorem negative_wait:
  assumes "valid_time now" and "second now = 0" and "0 < microsecond now"
  shows "wait_time now = b64 (- of_int (microsecond now) / 1000000)
       \<and> wait_time now < 0
       \<and> asyncio_sleep (wait_time now) = 0
       \<and> after now (wait_time now) = now
       \<and> stamp (scheduled_data_collection now rs csvfile) = strftime_hms (collection_time now)"
proof -
  let ?x = "- of_int (microsecond now) / 1000000 :: rat"
  have w: "wait_time now = b64 ?x"
    using assms(2) by (simp add: wait_time_eq)
  have neg: "?x < 0" using assms(3) by simp
  have "(1::rat) \<le> of_int (microsecond now)"
    using assms(3) by (simp add: of_int_1_le_iff)
  then have "1 / 1000000 \<le> \<bar>?x\<bar>"
    using assms(3) by simp
  moreover have "pow2 (- 1022) \<le> 1 / 1000000"
  proof -
    have "pow2 (- 1022) \<le> pow2 (- 20)" by (rule pow2_mono) simp
    also have "\<dots> \<le> 1 / 1000000" by code_simp
    finally show ?thesis .
  qed
  ultimately have "pow2 (- 1022) \<le> \<bar>?x\<bar>" by (rule order_trans [rotated])
  from b64_neg [OF neg this] have lt: "wait_time now < 0" by (simp only: w)
  then have sl: "asyncio_sleep (wait_time now) = 0" by (simp add: asyncio_sleep_def)
  then have af: "after now (wait_time now) = now"
    by (simp add: after_def of_to_microseconds [OF assms(1)])
  then have "stamp (scheduled_data_collection now rs csvfile) = strftime_hms (collection_time now)"
    by (simp add: scheduled_data_collection_def Let_def)
  with w lt sl af show ?thesis by simp
qed

theorem negative_wait_witness:
  "wait_time boundary_example = - 1 / 4
   \<and> wait_time boundary_example < 0
   \<and> after boundary_example (wait_time boundary_example) = boundary_example
   \<and> stamp (scheduled_data_collection boundary_example [] []) = ''12:00:00''"
proof -
  have v: "valid_time boundary_example" and s: "second boundary_example = 0"
    and u: "0 < microsecond boundary_example"
    by (simp_all add: valid_time_def boundary_example_def)
  have st: "strftime_hms (collection_time boundary_example) = ''12:00:00''"
    by code_simp
  from negative_wait [OF v s u, of "[]" "[]"]
  have "wait_time boundary_example < 0"
    and "after boundary_example (wait_time boundary_example) = boundary_example"
    and "stamp (scheduled_data_collection boundary_example [] [])
           = strftime_hms (collection_time boundary_example)"
    by blast+
  then show ?thesis
    by (simp add: boundary_example_values(1) st)
qed

section \<open>Severity bands: claim C8\<close>

lemma colors_severity: "colors rate = (''black'', back_color_of (severity_of rate))"
  by (simp add: colors_def severity_of_def)

lemma cprint_rates_colors:
  "map snd (cprint_rates rs) = map colors (List.map_filter snd rs)"
  by (induction rs rule: cprint_rates.induct) (simp_all add: List.map_filter_simps)

text \<open>
  Claim C8. The console line of every rate of a snapshot that is not \<open>None\<close> has the
  colours of its band, and the band is decided in the order: above 50 severe-high, else
  above 30 high, else above 5 elevated, else below -10 severe-low, else neutral. What a
  turn of the scheduler writes is \<open>write_to_csv\<close> of the time and the snapshot:
  the bands play no part in it.
\<close>

theorem severity_bands:
  "map snd (cprint_rates (snapshot rs))
     = map (\<lambda>rate. (''black'', back_color_of (severity_of rate))) (List.map_filter snd rs)
   \<and> (severity_of rate = SevereHigh \<longleftrightarrow> 50 < rate)
   \<and> (severity_of rate = High \<longleftrightarrow> 30 < rate \<and> rate \<le> 50)
   \<and> (severity_of rate = Elevated \<longleftrightarrow> 5 < rate \<and> rate \<le> 30)
   \<and> (severity_of rate = SevereLow \<longleftrightarrow> rate < - 10)
   \<and> (severity_of rate = Neutral \<longleftrightarrow> - 10 \<le> rate \<and> rate \<le> 5)
   \<and> written (scheduled_data_collection now rs csvfile)
       = write_to_csv (stamp (scheduled_data_collection now rs csvfile)) (snapshot rs) csvfile"
proof -
  have "map snd (cprint_rates (snapshot rs))
     = map (\<lambda>rate. (''black'', back_color_of (severity_of rate))) (List.map_filter snd rs)"
    by (simp add: cprint_rates_colors snapshot_def colors_severity)
  moreover have "written (scheduled_data_collection now rs csvfile)
       = write_to_csv (stamp (scheduled_data_collection now rs csvfile)) (snapshot rs) csvfile"
    by (simp add: scheduled_data_collection_def Let_def)
  ultimately show ?thesis
    by (simp add: severity_of_def)
qed

section \<open>The annualized rate: claim C5\<close>

lemma float_of_0_0001: "py_float (JStr ''0.0001'') = Inr (7378697629483821 / 73786976294838206464)"
  by code_simp

lemma yearly_of_0_0001:
  "yearly_funding_rate (7378697629483821 / 73786976294838206464)
     = 6164301989963367 / 562949953421312"
  by code_simp

lemma float_10_95: "b64 (219 / 20) = 3082150994981683 / 281474976710656"
  by code_simp

lemma format_10_95: "format_2f (6164301989963367 / 562949953421312) = ''10.95''"
  by code_simp

lemma on_frame_rate:
  assumes "py_getitem data ''r'' = Inr r" and "py_float r = Inr funding_rate"
  shows "on_frame display_name (Decoded data) rs
           = Inr (update display_name (yearly_funding_rate funding_rate) rs)"
  using assms by (simp add: on_frame_def)

lemma rate_frame_stored:
  "on_frame ''BTC'' rate_frame current_rates
     = Inr (update ''BTC'' (6164301989963367 / 562949953421312) current_rates)"
proof -
  have "py_getitem (JObj [(''r'', JStr ''0.0001'')]) ''r'' = Inr (JStr ''0.0001'')"
    by (simp add: py_getitem_def getitem_def)
  from on_frame_rate [OF this float_of_0_0001] show ?thesis
    by (simp add: rate_frame_def yearly_of_0_0001)
qed

text \<open>
  Claim C5 as stated fails on its example. For the raw rate \<open>"0.0001"\<close> the value
  stored is the double \<open>10.950000000000001\<close>, which is neither the number 10.95 nor
  the double nearest to it.
\<close>

theorem annualized_example_counterexample:
  "on_frame ''BTC'' rate_frame current_rates
     = Inr (update ''BTC'' (6164301989963367 / 562949953421312) current_rates)
   \<and> (6164301989963367 / 562949953421312 :: rat) \<noteq> 219 / 20
   \<and> (6164301989963367 / 562949953421312 :: rat) \<noteq> b64 (219 / 20)"
  by (simp add: rate_frame_stored float_10_95)

text \<open>
  Claim C5, amended. For a frame whose field \<open>r\<close> converts to the double
  \<open>funding_rate\<close>, the value stored for the instrument is
  \<open>((funding_rate * 3) * 365) * 100\<close>, each product rounded to the nearest double.
  For the raw rate \<open>"0.0001"\<close> this is \<open>6164301989963367 / 2^49\<close>, that is
  \<open>10.950000000000001\<close>: within \<open>10^-14\<close> of 10.95, and shown as \<open>10.95\<close>
  with two decimals.
\<close>

theorem annualized_value:
  assumes "py_getitem data ''r'' = Inr r" and "py_float r = Inr funding_rate"
  shows "on_frame display_name (Decoded data) rs
           = Inr (update display_name (fmul (fmul (fmul funding_rate 3) 365) 100) rs)
       \<and> map_of (update display_name (fmul (fmul (fmul funding_rate 3) 365) 100) rs) display_name
           = Some (Some (fmul (fmul (fmul funding_rate 3) 365) 100))
       \<and> py_float (JStr ''0.0001'') = Inr (b64 (1 / 10000))
       \<and> fmul (fmul (fmul (b64 (1 / 10000)) 3) 365) 100 = 6164301989963367 / 562949953421312
       \<and> format_2f (6164301989963367 / 562949953421312) = ''10.95''
       \<and> \<bar>6164301989963367 / 562949953421312 - 219 / 20\<bar> < (1 / 10 ^ 14 :: rat)"
proof -
  have a: "on_frame display_name (Decoded data) rs
           = Inr (update display_name (fmul (fmul (fmul funding_rate 3) 365) 100) rs)"
    using on_frame_rate [OF assms] by (simp add: yearly_funding_rate_def)
  have b: "map_of (update display_name v rs) display_name = Some (Some v)" for v
    by (simp add: update_def map_of_setitem)
  have c: "py_float (JStr ''0.0001'') = Inr (b64 (1 / 10000))"
    by (simp only: float_of_0_0001 b64_0_0001)
  have d: "fmul (fmul (fmul (b64 (1 / 10000)) 3) 365) 100 = 6164301989963367 / 562949953421312"
    using yearly_of_0_0001 by (simp only: yearly_funding_rate_def b64_0_0001)
  have e: "\<bar>6164301989963367 / 562949953421312 - 219 / 20\<bar> < (1 / 10 ^ 14 :: rat)"
    by simp
  from a b c d e format_10_95 show ?thesis by blast
qed

theorem annualized_value_witness:
  "on_frame ''ETH'' (Decoded (JObj [(''e'', JStr ''markPriceUpdate''), (''r'', JStr ''0.0001'')]))
       current_rates
     = Inr [(''BTC'', None), (''ETH'', Some (6164301989963367 / 562949953421312)), (''SOL'', None),
            (''XRP'', None), (''BNB'', None), (''DOGE'', None)]"
proof -
  have g: "py_getitem (JObj [(''e'', JStr ''markPriceUpdate''), (''r'', JStr ''0.0001'')]) ''r''
             = Inr (JStr ''0.0001'')"
    by (simp add: py_getitem_def getitem_def)
  have y: "fmul (fmul (fmul (7378697629483821 / 73786976294838206464) 3) 365) 100
             = 6164301989963367 / 562949953421312"
    using yearly_of_0_0001 by (simp add: yearly_funding_rate_def)
  from annualized_value [OF g float_of_0_0001, of "''ETH''" current_rates] show ?thesis
    by (simp add: y update_def current_rates_def display_names_eq)
qed

section \<open>Reconnect delays: claim C4\<close>

lemma min_scale:
  fixes x m p :: int
  assumes "1 \<le> p" and "0 \<le> m"
  shows "min (min x m * p) m = min (x * p) m"
proof (cases "x \<le> m")
  case True
  then show ?thesis by (simp add: min_def)
next
  case False
  then have x: "0 \<le> x" using assms(2) by simp
  have "m * 1 \<le> m * p" by (rule mult_left_mono [OF assms])
  then have m: "m \<le> m * p" by simp
  have "x * 1 \<le> x * p" by (rule mult_left_mono [OF assms(1) x])
  then have "m < x * p" using False by simp
  with m False show ?thesis by (simp add: min_def)
qed

lemma nextDelay_step:
  "nextDelay (min (b * 2) max_backoff) max_backoff k = nextDelay b max_backoff (Suc k)"
proof -
  have "min (min (b * 2) 60 * 2 ^ k) 60 = min (b * 2 * 2 ^ k) (60::int)"
    by (rule min_scale) simp_all
  then show ?thesis
    by (simp add: nextDelay_def max_backoff_def mult.assoc)
qed

lemma refused_run:
  assumes "b \<le> max_backoff"
  shows "snd (binance_liquidation_from strftime_est b (map Refused ts) st)
           = map2 backoff_sleep (map (nextDelay b max_backoff) [0..<length ts]) ts"
  using assms
proof (induction ts arbitrary: b st)
  case Nil
  then show ?case by simp
next
  case (Cons t ts)
  have b': "min (b * 2) max_backoff \<le> max_backoff" by simp
  have u: "[0..<length (t # ts)] = 0 # map Suc [0..<length ts]"
    by (simp add: upt_conv_Cons map_Suc_upt del: upt_Suc)
  have z: "nextDelay b max_backoff 0 = b"
    using Cons.prems by (simp add: nextDelay_def)
  show ?case
    unfolding u using Cons.IH [OF b']
    by (simp add: split_beta z nextDelay_step comp_def del: upt_Suc)
qed

lemma loop_ends_at_close:
  "fst (liquidation_loop strftime_est (frs @ Closed # rest) st)"
  by (induction strftime_est frs st rule: liquidation_loop.induct)
     (simp_all split: sum.splits)

lemma funding_refused_run:
  "sleeps (snd (continuous_funding_stream symbol display_name (map Refused ts) rs))
     = replicate (length ts) 5"
  by (induction ts) (simp_all add: split_beta sleep_after_def)

lemma nextDelay_le: "nextDelay 1 max_backoff k \<le> max_backoff"
  by (simp add: nextDelay_def)

lemma nextDelay_mono: "nextDelay 1 max_backoff k \<le> nextDelay 1 max_backoff (k + d)"
proof -
  have "(2::int) ^ k \<le> 2 ^ (k + d)" by (rule power_increasing) simp_all
  then have "min (1 * 2 ^ k) max_backoff \<le> min (1 * 2 ^ (k + d)) max_backoff"
    by (intro min.mono) simp_all
  then show ?thesis by (simp only: nextDelay_def)
qed

text \<open>
  Claim C4, amended. In \<open>liqs.py\<close> the sleep after the \<open>k\<close>-th consecutive failed
  connection attempt is \<open>backoff + 0.1 * backoff * t\<close>, in doubles, where \<open>t\<close> is the
  fractional part of the event loop's clock and \<open>backoff\<close> is
  \<open>min(1 * 2^k, 60)\<close>. The value of \<open>backoff\<close> is 1 at the first failure, never
  above 60 and never decreasing with \<open>k\<close>; a connection that was opened sets it back
  to 1, whatever it was. The jitter comes on top of \<open>backoff\<close>. In \<open>funding.py\<close>
  every failed attempt is followed by a sleep of 5 seconds.
\<close>

theorem reconnect_delays:
  "snd (binance_liquidation strftime_est (map Refused ts) st)
     = map2 backoff_sleep (map (nextDelay 1 max_backoff) [0..<length ts]) ts
   \<and> snd (binance_liquidation_from strftime_est b (Opened (frs @ [Closed]) # map Refused ts) st)
     = map2 backoff_sleep (map (nextDelay 1 max_backoff) [0..<length ts]) ts
   \<and> nextDelay 1 max_backoff 0 = 1
   \<and> nextDelay 1 max_backoff k \<le> max_backoff
   \<and> nextDelay 1 max_backoff k \<le> nextDelay 1 max_backoff (k + d)
   \<and> backoff_sleep backoff t = fadd (of_int backoff) (fmul (fmul (b64 (1 / 10)) (of_int backoff)) t)
   \<and> sleeps (snd (continuous_funding_stream symbol display_name (map Refused ts) rs))
     = replicate (length ts) 5"
proof -
  have one: "(1::int) \<le> max_backoff" by (simp add: max_backoff_def)
  have a: "snd (binance_liquidation strftime_est (map Refused ts) st)
     = map2 backoff_sleep (map (nextDelay 1 max_backoff) [0..<length ts]) ts"
    unfolding binance_liquidation_def by (rule refused_run [OF one])
  have "fst (liquidation_loop strftime_est (frs @ [Closed])
      (log_message ''WebSocket connected successfully'' st))"
    by (rule loop_ends_at_close)
  then obtain st' where "liquidation_loop strftime_est (frs @ [Closed])
      (log_message ''WebSocket connected successfully'' st) = (True, st')"
    by (cases "liquidation_loop strftime_est (frs @ [Closed])
      (log_message ''WebSocket connected successfully'' st)") simp
  then have r: "snd (binance_liquidation_from strftime_est b (Opened (frs @ [Closed]) # map Refused ts) st)
     = map2 backoff_sleep (map (nextDelay 1 max_backoff) [0..<length ts]) ts"
    by (simp add: refused_run [OF one])
  have z: "nextDelay 1 max_backoff 0 = 1"
    by (simp add: nextDelay_def max_backoff_def)
  have j: "backoff_sleep backoff t
      = fadd (of_int backoff) (fmul (fmul (b64 (1 / 10)) (of_int backoff)) t)"
    by (simp add: backoff_sleep_def)
  from a r z j show ?thesis
    by (intro conjI nextDelay_le nextDelay_mono funding_refused_run)
qed

text \<open>
  Claim C4 as stated fails. At the seventh consecutive failure \<open>backoff\<close> is 60, and
  with the clock at half a second the sleep is 63 seconds, above the ceiling of 60.
\<close>

lemma backoff_sleep_60: "backoff_sleep 60 (1 / 2) = 63"
  by code_simp

theorem reconnect_delay_counterexample:
  "snd (binance_liquidation no_clock (map Refused (replicate 7 (1 / 2))) empty_files) ! 6 = 63
   \<and> (of_int max_backoff :: rat) < 63"
proof -
  have one: "(1::int) \<le> max_backoff" by (simp add: max_backoff_def)
  have "snd (binance_liquidation no_clock (map Refused (replicate 7 (1 / 2))) empty_files) ! 6
        = map2 backoff_sleep (map (nextDelay 1 max_backoff) [0..<7]) (replicate 7 (1 / 2)) ! 6"
    unfolding binance_liquidation_def by (simp only: refused_run [OF one] length_replicate)
  also have "\<dots> = backoff_sleep (nextDelay 1 max_backoff 6) (1 / 2)"
    by simp
  also have "nextDelay 1 max_backoff 6 = 60"
    by (simp add: nextDelay_def max_backoff_def)
  finally show ?thesis
    by (simp add: backoff_sleep_60 max_backoff_def)
qed

section \<open>The liquidation filter: claim C6\<close>

lemma replace_str_Nil: "old \<noteq> [] \<Longrightarrow> replace_str old new [] = []"
  by (simp add: replace_str.simps)

lemma replace_str_skip:
  "old \<noteq> [] \<Longrightarrow> \<not> prefix old (c # cs) \<Longrightarrow>
   replace_str old new (c # cs) = c # replace_str old new cs"
  by (subst replace_str.simps) simp

lemma replace_str_hit:
  "old \<noteq> [] \<Longrightarrow> replace_str old new (old @ s) = new @ replace_str old new s"
  by (subst replace_str.simps) (auto simp: append_eq_Cons_conv)

lemma prefix_USDT_shorter:
  assumes "prefix ''USDT'' ((c # cs) @ ''USDT'')"
  shows "prefix ''USDT'' ((c # cs) @ ''USD'')"
proof -
  have short: "take n (xs @ ys) = take n xs" if "n \<le> length xs" for n and xs ys :: string
    using that by simp
  have k: "take n ''USDT'' = take n ''USD''" if "n \<le> 3" for n
    using short [of n "''USD''" "''T''"] that by simp
  have "take 4 ((c # cs) @ ''USDT'') = take 4 ((c # cs) @ ''USD'')"
    using k [of "3 - length cs"] by simp
  moreover have "take 4 ((c # cs) @ ''USDT'') = ''USDT''"
  proof -
    from assms obtain zs where z: "(c # cs) @ ''USDT'' = ''USDT'' @ zs"
      unfolding prefix_def by blast
    have "take 4 (''USDT'' @ zs) = ''USDT''" by simp
    then show ?thesis unfolding z .
  qed
  ultimately have "take 4 ((c # cs) @ ''USD'') = ''USDT''" by simp
  then show ?thesis
    by (metis take_is_prefix)
qed

lemma strip_suffix:
  "\<not> is_substring ''USDT'' (base @ ''USD'') \<Longrightarrow> replace_str ''USDT'' '''' (base @ ''USDT'') = base"
proof (induction base)
  case Nil
  have "replace_str ''USDT'' '''' (''USDT'' @ []) = [] @ replace_str ''USDT'' '''' []"
    by (rule replace_str_hit) simp
  then show ?case by (simp add: replace_str_Nil)
next
  case (Cons c cs)
  from Cons.prems have n: "\<not> prefix ''USDT'' ((c # cs) @ ''USD'')"
    and r: "\<not> is_substring ''USDT'' (cs @ ''USD'')"
    by simp_all
  from n prefix_USDT_shorter have "\<not> prefix ''USDT'' (c # (cs @ ''USDT''))"
    by auto
  then have "replace_str ''USDT'' '''' (c # (cs @ ''USDT'')) = c # replace_str ''USDT'' '''' (cs @ ''USDT'')"
    by (intro replace_str_skip) simp_all
  with Cons.IH [OF r] show ?case by simp
qed

lemma base_token_of_find:
  "base_token_of symbol tokens = find (\<lambda>token. prefix token symbol) tokens"
  by (induction tokens) simp_all

lemma usd_size_of_ok:
  assumes "py_getitem order_data ''z'' = Inr z" and "py_float z = Inr filled_quantity"
    and "py_getitem order_data ''p'' = Inr p" and "py_float p = Inr price"
  shows "usd_size_of order_data = Inr (fmul filled_quantity price)"
  using assms by (simp add: usd_size_of_def)

lemma get_or_empty_found:
  "py_getitem order_data key = Inr v \<Longrightarrow> get_or_empty order_data key = v"
  by (auto simp: get_or_empty_def py_getitem_def py_get_def getitem_def
        split: json.splits option.splits)

lemma msg_values_cells:
  assumes "py_getitem order_data ''S'' = Inr side" and "py_getitem order_data ''T'' = Inr T"
    and "py_getitem order_data ''z'' = Inr z" and "py_getitem order_data ''p'' = Inr p"
  shows "msg_values full_symbol order_data usd_size =
     [Text full_symbol, Field side, Field (get_or_empty order_data ''o''),
      Field (get_or_empty order_data ''f''), Field (get_or_empty order_data ''q''), Field p,
      Field (get_or_empty order_data ''ap''), Field (get_or_empty order_data ''X''),
      Field (get_or_empty order_data ''l''), Field z, Field T, Number usd_size]"
  by (simp add: msg_values_def assms [THEN get_or_empty_found])

text \<open>
  Claim C6. For an event whose fields are there and convert: every \<open>USDT\<close> is removed
  from the symbol (for a symbol that ends in its only \<open>USDT\<close>, the suffix), and the
  category is the first token of the watch-list, in list order, that is a prefix of what
  is left. Without a category the event changes nothing. The notional is the filled
  quantity times the price; below 3000 the event changes nothing. Otherwise one line is
  printed, and one row is appended to the global file and one to the file of the category:
  the row is the full symbol, the fields \<open>S\<close>, \<open>o\<close>, \<open>f\<close>, \<open>q\<close>, \<open>p\<close>, \<open>ap\<close>, \<open>X\<close>,
  \<open>l\<close>, \<open>z\<close>, \<open>T\<close> of the event (an empty string for one that is missing) and the
  notional, twelve cells, followed in the file of the category by the time of day. The
  line is a long liquidation for the side \<open>SELL\<close> and a short one for any other side.
\<close>

theorem liquidation_filter:
  assumes "py_getitem order_data ''s'' = Inr (JStr full_symbol)"
    and "py_getitem order_data ''S'' = Inr side"
    and "py_getitem order_data ''T'' = Inr T" and "py_int T = Inr timestamp"
    and "py_getitem order_data ''z'' = Inr z" and "py_float z = Inr filled_quantity"
    and "py_getitem order_data ''p'' = Inr p" and "py_float p = Inr price"
    and "strftime_est (int_truediv timestamp 1000) = Inr hms"
  shows "process_liquidation strftime_est order_data st =
     (case find (\<lambda>token. prefix token (replace_str ''USDT'' '''' full_symbol)) TOKENS_TO_WATCH of
        None \<Rightarrow> Inr st
      | Some base_token \<Rightarrow>
          if fmul filled_quantity price < 3000 then Inr st
          else Inr (st\<lparr>console := console st @
                        [\<lparr>c_type = (if side = JStr ''SELL'' then ''L LIQ'' else ''S LIQ''),
                          c_token = base_token, c_time = hms,
                          c_usd = fmul filled_quantity price,
                          c_color = (if side = JStr ''SELL'' then ''green'' else ''red''),
                          c_bold = (fmul filled_quantity price > 10000)\<rparr>],
                      main_file := main_file st @
                        [[Text full_symbol, Field side, Field (get_or_empty order_data ''o''),
                          Field (get_or_empty order_data ''f''),
                          Field (get_or_empty order_data ''q''), Field p,
                          Field (get_or_empty order_data ''ap''),
                          Field (get_or_empty order_data ''X''),
                          Field (get_or_empty order_data ''l''), Field z, Field T,
                          Number (fmul filled_quantity price)]],
                      token_file := (token_file st)
                        (base_token := token_file st base_token @
                           [[Text full_symbol, Field side, Field (get_or_empty order_data ''o''),
                             Field (get_or_empty order_data ''f''),
                             Field (get_or_empty order_data ''q''), Field p,
                             Field (get_or_empty order_data ''ap''),
                             Field (get_or_empty order_data ''X''),
                             Field (get_or_empty order_data ''l''), Field z, Field T,
                             Number (fmul filled_quantity price), Text hms]])\<rparr>))
       \<and> (\<not> is_substring ''USDT'' (base @ ''USD'') \<longrightarrow>
            replace_str ''USDT'' '''' (base @ ''USDT'') = base)"
    (is "?filter \<and> ?suffix")
proof
  have u: "usd_size_of order_data = Inr (fmul filled_quantity price)"
    using assms(5-8) by (rule usd_size_of_ok)
  note cells = msg_values_cells [OF assms(2) assms(3) assms(5) assms(7)]
  show ?filter
    unfolding process_liquidation_def
    by (simp add: assms(1-4) u record_liquidation_def assms(9) base_token_of_find Let_def cells
          split: option.split)
  show ?suffix
    using strip_suffix by blast
qed

lemma btc_order_fields:
  "py_getitem (btc_order z) ''s'' = Inr (JStr ''BTCUSDT'')"
  "py_getitem (btc_order z) ''S'' = Inr (JStr ''SELL'')"
  "py_getitem (btc_order z) ''T'' = Inr (JInt 1700000000000)"
  "py_getitem (btc_order z) ''z'' = Inr (JStr z)"
  "py_getitem (btc_order z) ''p'' = Inr (JStr ''90000'')"
  by (simp_all add: btc_order_def py_getitem_def getitem_def)

lemma btc_order_optional:
  "get_or_empty (btc_order z) ''o'' = JStr ''LIMIT''"
  "get_or_empty (btc_order z) ''f'' = JStr ''IOC''"
  "get_or_empty (btc_order z) ''q'' = JStr z"
  "get_or_empty (btc_order z) ''ap'' = JStr ''90000''"
  "get_or_empty (btc_order z) ''X'' = JStr ''FILLED''"
  "get_or_empty (btc_order z) ''l'' = JStr z"
  by (simp_all add: btc_order_def get_or_empty_def py_get_def)

lemma example_numbers:
  "py_float (JStr ''0.5'') = Inr (1 / 2)"
  "py_float (JStr ''0.01'') = Inr (5764607523034235 / 576460752303423488)"
  "py_float (JStr ''90000'') = Inr 90000"
  "fmul (1 / 2) 90000 = 45000"
  "fmul (5764607523034235 / 576460752303423488) 90000 = 900"
  "int_truediv 1700000000000 1000 = 1700000000"
  "replace_str ''USDT'' '''' ''BTCUSDT'' = ''BTC''"
  by code_simp+

lemma btc_category:
  "find (\<lambda>token. prefix token ''BTC'') TOKENS_TO_WATCH = Some ''BTC''"
  by (simp add: TOKENS_TO_WATCH_def)

lemma example_time:
  "py_int (JInt 1700000000000) = Inr 1700000000000"
  "est_example (int_truediv 1700000000000 1000) = Inr ''17:13:20''"
  by (simp_all add: py_int_def example_numbers est_example_def)

theorem liquidation_filter_witness:
  "process_liquidation est_example (btc_order ''0.5'') empty_files =
     Inr \<lparr>main_file =
            [[Text ''BTCUSDT'', Field (JStr ''SELL''), Field (JStr ''LIMIT''),
              Field (JStr ''IOC''), Field (JStr ''0.5''), Field (JStr ''90000''),
              Field (JStr ''90000''), Field (JStr ''FILLED''), Field (JStr ''0.5''),
              Field (JStr ''0.5''), Field (JInt 1700000000000), Number 45000]],
          token_file = (\<lambda>t. [])
            (''BTC'' :=
               [[Text ''BTCUSDT'', Field (JStr ''SELL''), Field (JStr ''LIMIT''),
                 Field (JStr ''IOC''), Field (JStr ''0.5''), Field (JStr ''90000''),
                 Field (JStr ''90000''), Field (JStr ''FILLED''), Field (JStr ''0.5''),
                 Field (JStr ''0.5''), Field (JInt 1700000000000), Number 45000,
                 Text ''17:13:20'']]),
          console = [\<lparr>c_type = ''L LIQ'', c_token = ''BTC'', c_time = ''17:13:20'',
                      c_usd = 45000, c_color = ''green'', c_bold = True\<rparr>],
          bot_log = []\<rparr>
   \<and> process_liquidation est_example (btc_order ''0.01'') empty_files = Inr empty_files"
proof -
  have "process_liquidation est_example (btc_order ''0.5'') empty_files =
     Inr \<lparr>main_file =
            [[Text ''BTCUSDT'', Field (JStr ''SELL''), Field (JStr ''LIMIT''),
              Field (JStr ''IOC''), Field (JStr ''0.5''), Field (JStr ''90000''),
              Field (JStr ''90000''), Field (JStr ''FILLED''), Field (JStr ''0.5''),
              Field (JStr ''0.5''), Field (JInt 1700000000000), Number 45000]],
          token_file = (\<lambda>t. [])
            (''BTC'' :=
               [[Text ''BTCUSDT'', Field (JStr ''SELL''), Field (JStr ''LIMIT''),
                 Field (JStr ''IOC''), Field (JStr ''0.5''), Field (JStr ''90000''),
                 Field (JStr ''90000''), Field (JStr ''FILLED''), Field (JStr ''0.5''),
                 Field (JStr ''0.5''), Field (JInt 1700000000000), Number 45000,
                 Text ''17:13:20'']]),
          console = [\<lparr>c_type = ''L LIQ'', c_token = ''BTC'', c_time = ''17:13:20'',
                      c_usd = 45000, c_color = ''green'', c_bold = True\<rparr>],
          bot_log = []\<rparr>"
    using liquidation_filter [where strftime_est = est_example and st = empty_files,
        OF btc_order_fields(1,2,3) example_time(1) btc_order_fields(4) example_numbers(1)
        btc_order_fields(5) example_numbers(3) example_time(2), THEN conjunct1]
    by (simp add: example_numbers btc_category btc_order_optional empty_files_def)
  moreover have "process_liquidation est_example (btc_order ''0.01'') empty_files = Inr empty_files"
    using liquidation_filter [where strftime_est = est_example and st = empty_files,
        OF btc_order_fields(1,2,3) example_time(1) btc_order_fields(4) example_numbers(2)
        btc_order_fields(5) example_numbers(3) example_time(2), THEN conjunct1]
    by (simp add: example_numbers btc_category)
  ultimately show ?thesis by (rule conjI)
qed

section \<open>A frame that does not decode: claim C3\<close>

lemma on_frame_undecodable:
  "on_frame display_name (Undecodable message) rs = Inl JSONDecodeError"
  by (simp add: on_frame_def)

lemma receive_loop_undecodable:
  "receive_loop display_name (Undecodable message # frs) rs = (Some JSONDecodeError, rs)"
  by (simp add: on_frame_undecodable)

text \<open>The bot's log only grows: no frame removes a line from it.\<close>

lemma process_liquidation_log:
  "process_liquidation strftime_est order_data st = Inr st' \<Longrightarrow>
   prefix (bot_log st) (bot_log st')"
  by (auto simp: process_liquidation_def record_liquidation_def log_message_def Let_def
        split: sum.splits json.splits option.splits if_splits)

lemma on_liquidation_frame_log:
  "on_liquidation_frame strftime_est data st = Inr st' \<Longrightarrow> prefix (bot_log st) (bot_log st')"
  by (auto simp: on_liquidation_frame_def process_liquidation_log
        split: sum.splits bool.splits)

lemma liquidation_loop_log:
  "prefix (bot_log st) (bot_log (snd (liquidation_loop strftime_est frs st)))"
proof (induction strftime_est frs st rule: liquidation_loop.induct)
  case (1 strftime_est st)
  show ?case by simp
next
  case (2 strftime_est frs st)
  show ?case by (simp add: log_message_def)
next
  case (3 strftime_est msg frs st)
  have "prefix (bot_log st)
          (bot_log (log_message (''Error decoding JSON: '' @ take 100 msg @ ''...'') st))"
    by (simp add: log_message_def)
  from prefix_order.trans [OF this 3] show ?case by simp
next
  case (4 strftime_est data frs st)
  show ?case
  proof (cases "on_liquidation_frame strftime_est data st")
    case (Inl e)
    have "prefix (bot_log st) (bot_log (log_message ''Error processing message'' st))"
      by (simp add: log_message_def)
    from prefix_order.trans [OF this "4.IH"(1) [OF Inl]] Inl show ?thesis by simp
  next
    case (Inr st')
    from prefix_order.trans [OF on_liquidation_frame_log [OF Inr] "4.IH"(2) [OF Inr]] Inr
    show ?thesis by simp
  qed
qed

text \<open>The example order, in a frame of its own, on any state.\<close>

lemma btc_processed:
  "process_liquidation est_example (btc_order ''0.5'') st =
     Inr (st\<lparr>console := console st @ [btc_line],
             main_file := main_file st @ [btc_row],
             token_file := (token_file st)
               (''BTC'' := token_file st ''BTC'' @ [btc_row @ [Text ''17:13:20'']])\<rparr>)"
proof -
  have u: "usd_size_of (btc_order ''0.5'') = Inr 45000"
    using usd_size_of_ok [OF btc_order_fields(4) example_numbers(1) btc_order_fields(5)
        example_numbers(3)]
    by (simp add: example_numbers)
  have cells: "msg_values ''BTCUSDT'' (btc_order ''0.5'') 45000 = btc_row"
    using msg_values_cells [where full_symbol = "''BTCUSDT''" and usd_size = 45000,
        OF btc_order_fields(2) btc_order_fields(3) btc_order_fields(4) btc_order_fields(5),
        of "''0.5''"]
    by (simp add: btc_order_optional btc_row_def)
  show ?thesis
    unfolding process_liquidation_def
    by (simp add: btc_order_fields example_time u record_liquidation_def base_token_of_find
          example_numbers btc_category cells btc_line_def est_example_def Let_def)
qed

lemma order_frame_processed:
  "on_liquidation_frame est_example
     (JObj [(''e'', JStr ''forceOrder''), (''o'', btc_order ''0.5'')]) st
   = process_liquidation est_example (btc_order ''0.5'') st"
  by (simp add: on_liquidation_frame_def py_contains_def py_getitem_def getitem_def)

text \<open>
  Claim C3 as stated fails for the streams of \<open>funding.py\<close>. On a connection that
  delivers a frame that does not decode and then a valid frame, the stream logs the error,
  sleeps one second and is left to connect again; the aggregate is as before, while the
  valid frame alone would have been stored.
\<close>

theorem decode_failure_counterexample:
  "continuous_funding_stream ''btcusdt'' ''BTC'' [Opened [Undecodable ''{'', rate_frame]] current_rates
       = (current_rates,
          [Connect ''wss://fstream.binance.com/ws/btcusdt@markPrice'', LogError JSONDecodeError, Sleep 1])
   \<and> continuous_funding_stream ''btcusdt'' ''BTC'' [Opened [rate_frame]] current_rates
       = (update ''BTC'' (6164301989963367 / 562949953421312) current_rates,
          [Connect ''wss://fstream.binance.com/ws/btcusdt@markPrice''])"
  by (simp add: on_frame_undecodable rate_frame_stored sleep_after_def websocket_url_base_def)

text \<open>
  Claim C3, amended. In \<open>liqs.py\<close> a frame that does not decode is logged and the
  receive loop goes on, on the same connection, with the frames that follow: the line
  \<open>Error decoding JSON\<close> with the first hundred characters of the frame is in the bot's
  log from then on, the frame after it is processed as it would have been on its own, and
  a liquidation that follows the frame is printed and written to both files. In
  \<open>funding.py\<close> such a frame ends the receive loop, whatever follows it: the rates
  received before it stay stored, the stream logs the error, leaves the connection, sleeps
  one second and connects again.
\<close>

theorem decode_failure:
  "liquidation_loop strftime_est (Undecodable message # frs) st
       = liquidation_loop strftime_est frs
           (log_message (''Error decoding JSON: '' @ take 100 message @ ''...'') st)
   \<and> prefix (bot_log st @ [''Error decoding JSON: '' @ take 100 message @ ''...''])
        (bot_log (snd (liquidation_loop strftime_est (Undecodable message # frs) st)))
   \<and> liquidation_loop strftime_est (Undecodable message # Decoded data # frs) st
       = (case on_liquidation_frame strftime_est data
                (st\<lparr>bot_log := bot_log st @ [''Error decoding JSON: '' @ take 100 message @ ''...'']\<rparr>) of
            Inl e \<Rightarrow>
              liquidation_loop strftime_est frs
                (st\<lparr>bot_log := bot_log st @
                      [''Error decoding JSON: '' @ take 100 message @ ''...'',
                       ''Error processing message'']\<rparr>)
          | Inr st' \<Rightarrow> liquidation_loop strftime_est frs st')
   \<and> liquidation_loop est_example [Undecodable ''{'', order_frame] empty_files
       = (False,
          \<lparr>main_file =
             [[Text ''BTCUSDT'', Field (JStr ''SELL''), Field (JStr ''LIMIT''),
               Field (JStr ''IOC''), Field (JStr ''0.5''), Field (JStr ''90000''),
               Field (JStr ''90000''), Field (JStr ''FILLED''), Field (JStr ''0.5''),
               Field (JStr ''0.5''), Field (JInt 1700000000000), Number 45000]],
           token_file = (\<lambda>t. [])
             (''BTC'' :=
                [[Text ''BTCUSDT'', Field (JStr ''SELL''), Field (JStr ''LIMIT''),
                  Field (JStr ''IOC''), Field (JStr ''0.5''), Field (JStr ''90000''),
                  Field (JStr ''90000''), Field (JStr ''FILLED''), Field (JStr ''0.5''),
                  Field (JStr ''0.5''), Field (JInt 1700000000000), Number 45000,
                  Text ''17:13:20'']]),
           console = [\<lparr>c_type = ''L LIQ'', c_token = ''BTC'', c_time = ''17:13:20'',
                       c_usd = 45000, c_color = ''green'', c_bold = True\<rparr>],
           bot_log = [''Error decoding JSON: {...'']\<rparr>)
   \<and> receive_loop display_name (Undecodable message # frs) rs = (Some JSONDecodeError, rs)
   \<and> continuous_funding_stream symbol display_name (Opened (Undecodable message # frs) # cs) rs
       = (fst (continuous_funding_stream symbol display_name cs rs),
          [Connect (websocket_url_base @ symbol @ ''@markPrice''), LogError JSONDecodeError, Sleep 1]
            @ snd (continuous_funding_stream symbol display_name cs rs))
   \<and> continuous_funding_stream ''btcusdt'' ''BTC''
         [Opened [rate_frame, Undecodable ''{'', rate_frame]] current_rates
       = (update ''BTC'' (6164301989963367 / 562949953421312) current_rates,
          [Connect ''wss://fstream.binance.com/ws/btcusdt@markPrice'', LogError JSONDecodeError,
           Sleep 1])"
    (is "?continues \<and> ?logged \<and> ?next \<and> ?example \<and> ?ends \<and> ?reconnects \<and> ?stored")
proof -
  have 1: ?continues
    by simp
  have 2: ?logged
    using liquidation_loop_log
      [of "log_message (''Error decoding JSON: '' @ take 100 message @ ''...'') st"
          strftime_est frs]
    by (simp add: log_message_def)
  have 3: ?next
    by (simp add: log_message_def split: sum.split)
  have 4: ?example
    by (simp add: order_frame_def order_frame_processed btc_processed log_message_def
          empty_files_def btc_row_def btc_line_def)
  have 5: ?ends
    by (simp add: on_frame_undecodable)
  have 6: ?reconnects
    by (simp add: on_frame_undecodable sleep_after_def split_beta)
  have 7: ?stored
    by (simp add: rate_frame_stored on_frame_undecodable sleep_after_def websocket_url_base_def)
  from 1 2 3 4 5 6 7 show ?thesis
    by (intro conjI)
qed

end
